theory Spec2Isabelle
  imports Main "HOL-Library.AList" "HOL-Library.Code_Target_Numeral"
begin

section \<open>Cells, columns and the array store\<close>

text \<open>
  \<^verbatim>\<open>CellType = (boolean|number|null|string|undefined)\<close>. The table never computes
  with a number, so the type of numbers is the parameter \<open>'n\<close>. An empty slot of a
  JavaScript array (as \<^verbatim>\<open>new Array(n)\<close> and a growing \<^verbatim>\<open>length\<close> make them) reads as
  \<^verbatim>\<open>undefined\<close> and is modelled by \<open>CUndefined\<close> as well.
\<close>

datatype 'n cell = CBoolean bool | CNumber 'n | CNull | CString string | CUndefined

text \<open>
  A column is an array of cells or a typed array of numbers (the \<^verbatim>\<open>isArray\<close> test of
  \<^verbatim>\<open>applyRowCount\<close> tells them apart: "Not on typed array"). A name of the table can
  also come to hold an object that is neither: \<^verbatim>\<open>columns[columnName]\<close> in \<^verbatim>\<open>setRow\<close> finds
  the members that every object inherits, and \<^verbatim>\<open>setRow\<close> stores what it has found. Of
  such an object the model keeps the properties written at an index. Callers supply arrays
  and typed arrays only, so that the \<^verbatim>\<open>length\<close> of another object is never read.
\<close>

datatype 'n column =
  ArrayColumn "'n cell list" | TypedColumn "'n list" | OtherObject "(int \<times> 'n cell) list"

datatype error = TypeError | RangeError

fun isArray :: "'n column \<Rightarrow> bool" where
  "isArray (ArrayColumn xs) = True"
| "isArray (TypedColumn ns) = False"
| "isArray (OtherObject ps) = False"

text \<open>\<^verbatim>\<open>column.length\<close>\<close>

fun columnLength :: "'n column \<Rightarrow> nat" where
  "columnLength (ArrayColumn xs) = length xs"
| "columnLength (TypedColumn ns) = length ns"
| "columnLength (OtherObject ps) = 0"

text \<open>\<^verbatim>\<open>column[i]\<close>, for an index \<open>i\<close> that is a natural number: no bounds check, a read
  past the end is \<^verbatim>\<open>undefined\<close>.\<close>

fun columnAt :: "'n column \<Rightarrow> nat \<Rightarrow> 'n cell" where
  "columnAt (ArrayColumn xs) i = (if i < length xs then xs ! i else CUndefined)"
| "columnAt (TypedColumn ns) i = (if i < length ns then CNumber (ns ! i) else CUndefined)"
| "columnAt (OtherObject ps) i = (case map_of ps (int i) of None \<Rightarrow> CUndefined | Some v \<Rightarrow> v)"

text \<open>\<^verbatim>\<open>column.length = n\<close> on an array: truncates, or pads with empty slots.\<close>

definition arraySetLength :: "nat \<Rightarrow> 'n cell list \<Rightarrow> 'n cell list" where
  "arraySetLength n xs = take n xs @ replicate (n - length xs) CUndefined"

text \<open>
  The row index of \<^verbatim>\<open>setRow\<close> is a number; the model takes the integers among them. The
  length of an array is below \<open>2\<^sup>3\<^sup>2\<close>, and an array index is below the greatest
  length.
\<close>

definition arrayLengthLimit :: nat where
  "arrayLengthLimit = 4294967296"

text \<open>\<^verbatim>\<open>x + 1\<close> on numbers, for an integer \<open>x\<close> that is a number: exact within
  \<open>\<plusminus>2\<^sup>5\<^sup>3\<close>, rounded to the nearest number (to the even one of two) beyond.\<close>

definition numberPlusOne :: "int \<Rightarrow> int" where
  "numberPlusOne x =
     (if - 9007199254740992 \<le> x \<and> x < 9007199254740992 then x + 1
      else if \<bar>x\<bar> < 18014398509481984 \<and> odd (x div 2) then x + 2
      else x)"

text \<open>\<^verbatim>\<open>column[i] = v\<close> on an array: a write past the end extends the array; at an
  \<open>i\<close> that is no array index it sets a property that is no element, and the model of
  an array keeps the elements only.\<close>

definition arrayStore :: "'n cell list \<Rightarrow> int \<Rightarrow> 'n cell \<Rightarrow> 'n cell list" where
  "arrayStore xs i v =
     (if 0 \<le> i \<and> i + 1 < int arrayLengthLimit
      then (if nat i < length xs then xs[nat i := v]
            else xs @ replicate (nat i - length xs) CUndefined @ [v])
      else xs)"

text \<open>\<^verbatim>\<open>column.splice(i, 0, v)\<close> on an array: a negative start counts from the end,
  and the start is clamped to the array.\<close>

definition arraySplice :: "'n cell list \<Rightarrow> int \<Rightarrow> 'n cell \<Rightarrow> 'n cell list" where
  "arraySplice xs i v =
     (let k = (if i < 0 then nat (int (length xs) + i) else min (nat i) (length xs))
      in take k xs @ v # drop k xs)"

text \<open>\<^verbatim>\<open>column[i] = v\<close> on a typed array: the length is fixed, a write outside is
  dropped, and the value is converted to a number (\<open>toNumber\<close>, a parameter).\<close>

definition typedStore :: "('n cell \<Rightarrow> 'n) \<Rightarrow> 'n list \<Rightarrow> int \<Rightarrow> 'n cell \<Rightarrow> 'n list" where
  "typedStore toNumber ns i v =
     (if 0 \<le> i \<and> nat i < length ns then ns[nat i := toNumber v] else ns)"

text \<open>\<^verbatim>\<open>new Array(n)\<close>: throws where \<open>n\<close> is no length of an array.\<close>

definition newArray :: "int \<Rightarrow> error + 'n column" where
  "newArray n =
     (if n < 0 \<or> int arrayLengthLimit \<le> n then Inl RangeError
      else Inr (ArrayColumn (replicate (nat n) CUndefined)))"

text \<open>
  A JavaScript object used as a dictionary is an association list of its own properties
  in the order they are enumerated: the names that are array indices first, in ascending
  order, then the other names in the order they were created. Assigning to a name the
  object has keeps the name's place.
\<close>

definition decimalOf :: "string \<Rightarrow> nat" where
  "decimalOf s = fold (\<lambda>c n. 10 * n + (of_char c - 48)) s 0"

definition arrayIndexOf :: "string \<Rightarrow> nat option" where
  "arrayIndexOf s =
     (if s \<noteq> [] \<and> list_all (\<lambda>c. 48 \<le> (of_char c :: nat) \<and> (of_char c :: nat) \<le> 57) s \<and>
         (s = ''0'' \<or> hd s \<noteq> CHR ''0'') \<and> decimalOf s + 1 < arrayLengthLimit
      then Some (decimalOf s) else None)"

fun insertIndexed :: "nat \<Rightarrow> string \<times> 'v \<Rightarrow> (string \<times> 'v) list \<Rightarrow> (string \<times> 'v) list" where
  "insertIndexed n e [] = [e]"
| "insertIndexed n e (p # ps) =
     (case arrayIndexOf (fst p) of
        None \<Rightarrow> e # p # ps
      | Some m \<Rightarrow> if m < n then p # insertIndexed n e ps else e # p # ps)"

definition objectSet :: "string \<Rightarrow> 'v \<Rightarrow> (string \<times> 'v) list \<Rightarrow> (string \<times> 'v) list" where
  "objectSet k v al =
     (case map_of al k of
        Some u \<Rightarrow> AList.update k v al
      | None \<Rightarrow>
          (case arrayIndexOf k of
             None \<Rightarrow> al @ [(k, v)]
           | Some n \<Rightarrow> insertIndexed n (k, v) al))"

text \<open>
  The names of the members that an object made by \<^verbatim>\<open>{}\<close> inherits from
  \<^verbatim>\<open>Object.prototype\<close>. Reading such a name from a dictionary that has no property of
  that name yields the inherited member, a function or object, which is truthy.
\<close>

definition objectPrototypeNames :: "string list" where
  "objectPrototypeNames =
     [''constructor'', ''__defineGetter__'', ''__defineSetter__'', ''hasOwnProperty'',
      ''__lookupGetter__'', ''__lookupSetter__'', ''isPrototypeOf'',
      ''propertyIsEnumerable'', ''toString'', ''valueOf'', ''__proto__'',
      ''toLocaleString'']"

text \<open>
  Arrays are objects: the table and its callers hold references to them. The store maps
  an address to the array that lives there; \<open>nextAddr\<close> is the first address never
  allocated. The rest of the world the table acts on is the counter behind
  \<^verbatim>\<open>uniqueKey\<close>, the events fired so far, and for each name of
  \<open>objectPrototypeNames\<close> the address the inherited member lives at.
\<close>

type_synonym addr = nat

record 'n world =
  heap :: "addr \<Rightarrow> 'n column"
  nextAddr :: addr
  idCounter :: nat
  fired :: "string list"
  objectPrototype :: "string \<Rightarrow> addr"

definition alloc :: "'n column \<Rightarrow> 'n world \<Rightarrow> addr \<times> 'n world" where
  "alloc c w =
     (nextAddr w, w\<lparr>heap := (heap w)(nextAddr w := c), nextAddr := Suc (nextAddr w)\<rparr>)"

text \<open>\<^verbatim>\<open>column.slice()\<close>: a new array with the same elements.\<close>

definition slice :: "addr \<Rightarrow> 'n world \<Rightarrow> addr \<times> 'n world" where
  "slice a w = alloc (heap w a) w"

datatype ident = Given string | Generated nat

text \<open>
  Modelled from the spec: \<^verbatim>\<open>uniqueKey\<close> of Core/Utilities is not among the sources. It
  yields a generated identifier, never the same twice: here the serial number of the
  call.
\<close>

definition uniqueKey :: "'n world \<Rightarrow> ident \<times> 'n world" where
  "uniqueKey w = (Generated (idCounter w), w\<lparr>idCounter := Suc (idCounter w)\<rparr>)"

text \<open>
  Modelled from the spec: \<^verbatim>\<open>fireEvent\<close> of Core/Utilities is not among the sources. It
  is the change notification; the model records the event's name.
\<close>

definition fireEvent :: "string \<Rightarrow> 'n world \<Rightarrow> 'n world" where
  "fireEvent name w = w\<lparr>fired := fired w @ [name]\<rparr>"

text \<open>\<^verbatim>\<open>DataEvent.Detail\<close>: only its member \<^verbatim>\<open>silent\<close> is read, through
  \<^verbatim>\<open>!eventDetail?.silent\<close>.\<close>

record detail =
  silent :: "bool option"

definition isSilent :: "detail option \<Rightarrow> bool" where
  "isSilent eventDetail =
     (case eventDetail of
        None \<Rightarrow> False
      | Some d \<Rightarrow> (case silent d of None \<Rightarrow> False | Some b \<Rightarrow> b))"

section \<open>DataTableCore\<close>

text \<open>
  The fields of the class. \<open>columns\<close> is a JavaScript object used as a dictionary, in
  the order \<^verbatim>\<open>Object.keys\<close> and \<^verbatim>\<open>objectEach\<close> enumerate its names in. The field
  \<^verbatim>\<open>modified\<close> is the table itself and is left out.
\<close>

record dataTableCore =
  autoId :: bool
  columns :: "(string \<times> addr) list"
  tableId :: ident
  rowCount :: nat
  versionTag :: ident

record dataTableOptions =
  optionsId :: "string option"
  optionsColumns :: "(string \<times> addr) list option"

text \<open>\<^verbatim>\<open>this.columns[columnName] = column\<close>. (For the name \<^verbatim>\<open>__proto__\<close> the
  assignment sets the prototype of the dictionary, where reading the name finds the
  column again; the model keeps the column under its name like any other.)\<close>

definition storeColumn :: "string \<Rightarrow> addr \<Rightarrow> dataTableCore \<Rightarrow> dataTableCore" where
  "storeColumn columnName a t = t\<lparr>columns := objectSet columnName a (columns t)\<rparr>"

text \<open>The body of the loop of \<^verbatim>\<open>applyRowCount\<close>:
  \<^verbatim>\<open>if (isArray(column)) { column.length = rowCount; }\<close>\<close>

fun setLengthIfArray :: "nat \<Rightarrow> 'n column \<Rightarrow> 'n column" where
  "setLengthIfArray n (ArrayColumn xs) = ArrayColumn (arraySetLength n xs)"
| "setLengthIfArray n (TypedColumn ns) = TypedColumn ns"
| "setLengthIfArray n (OtherObject ps) = OtherObject ps"

definition applyLength :: "nat \<Rightarrow> addr \<Rightarrow> 'n world \<Rightarrow> 'n world" where
  "applyLength n a w = w\<lparr>heap := (heap w)(a := setLengthIfArray n (heap w a))\<rparr>"

definition applyRowCount ::
  "nat \<Rightarrow> 'n world \<times> dataTableCore \<Rightarrow> 'n world \<times> dataTableCore" where
  "applyRowCount n s =
     (fold (\<lambda>entry w. applyLength n (snd entry) w) (columns (snd s)) (fst s),
      (snd s)\<lparr>rowCount := n\<rparr>)"

text \<open>
  The constructor. \<^verbatim>\<open>!options.id\<close> holds of a missing and of an empty identifier, and
  only then does \<^verbatim>\<open>options.id || uniqueKey()\<close> call \<^verbatim>\<open>uniqueKey\<close>. The loop state is
  the world, the table and the local \<^verbatim>\<open>rowCount\<close>.
\<close>

definition constructorColumn ::
  "string \<times> addr \<Rightarrow> 'n world \<times> dataTableCore \<times> nat \<Rightarrow> 'n world \<times> dataTableCore \<times> nat" where
  "constructorColumn entry s =
     (case s of (w, t, n) \<Rightarrow>
        (case slice (snd entry) w of (a, w') \<Rightarrow>
           (w', storeColumn (fst entry) a t, max n (columnLength (heap w (snd entry))))))"

definition newDataTableCore ::
  "dataTableOptions \<Rightarrow> 'n world \<Rightarrow> 'n world \<times> dataTableCore" where
  "newDataTableCore options w =
     (let auto = (case optionsId options of None \<Rightarrow> True | Some s \<Rightarrow> s = []);
          (i, w1) = (case optionsId options of
                       None \<Rightarrow> uniqueKey w
                     | Some s \<Rightarrow> if s = [] then uniqueKey w else (Given s, w));
          (v, w2) = uniqueKey w1;
          t = \<lparr>autoId = auto, columns = [], tableId = i, rowCount = 0, versionTag = v\<rparr>;
          (w3, t3, n) =
             fold constructorColumn
               (case optionsColumns options of None \<Rightarrow> [] | Some cs \<Rightarrow> cs) (w2, t, 0)
      in applyRowCount n (w3, t3))"

text \<open>\<^verbatim>\<open>getColumn\<close> returns the reference held by the table, or nothing. The
  readers are modelled on the table's own columns: for a name that the table has no
  column of, \<^verbatim>\<open>this.columns[columnName]\<close> in the source finds an inherited member, which
  the readers of the model do not follow.\<close>

definition getColumn :: "dataTableCore \<Rightarrow> string \<Rightarrow> addr option" where
  "getColumn t columnName = map_of (columns t) columnName"

text \<open>\<^verbatim>\<open>columnNames || Object.keys(this.columns)\<close>: an array, even an empty one,
  is truthy.\<close>

definition namesOrKeys :: "dataTableCore \<Rightarrow> string list option \<Rightarrow> string list" where
  "namesOrKeys t columnNames =
     (case columnNames of None \<Rightarrow> map fst (columns t) | Some names \<Rightarrow> names)"

text \<open>\<^verbatim>\<open>getColumns\<close>: the requested names (by default all), each with the reference
  held by the table or nothing; a name requested twice keeps its first place.\<close>

definition getColumns :: "dataTableCore \<Rightarrow> string list option \<Rightarrow> (string \<times> addr option) list" where
  "getColumns t columnNames =
     fold (\<lambda>columnName cols. objectSet columnName (map_of (columns t) columnName) cols)
       (namesOrKeys t columnNames) []"

text \<open>\<^verbatim>\<open>this.columns[key]?.[rowIndex]\<close>\<close>

definition cellAt :: "'n world \<Rightarrow> dataTableCore \<Rightarrow> string \<Rightarrow> nat \<Rightarrow> 'n cell" where
  "cellAt w t key rowIndex =
     (case map_of (columns t) key of
        None \<Rightarrow> CUndefined
      | Some a \<Rightarrow> columnAt (heap w a) rowIndex)"

definition getRow :: "'n world \<Rightarrow> dataTableCore \<Rightarrow> nat \<Rightarrow> string list option \<Rightarrow> 'n cell list" where
  "getRow w t rowIndex columnNames =
     map (\<lambda>key. cellAt w t key rowIndex) (namesOrKeys t columnNames)"

text \<open>\<^verbatim>\<open>setColumns\<close>: the parameter \<^verbatim>\<open>rowIndex\<close> is not read.\<close>

definition setColumnsColumn ::
  "string \<times> addr \<Rightarrow> 'n world \<times> dataTableCore \<times> nat \<Rightarrow> 'n world \<times> dataTableCore \<times> nat" where
  "setColumnsColumn entry s =
     (case s of (w, t, n) \<Rightarrow>
        (case slice (snd entry) w of (a, w') \<Rightarrow>
           (w', storeColumn (fst entry) a t, columnLength (heap w (snd entry)))))"

definition afterChange ::
  "string \<Rightarrow> detail option \<Rightarrow> 'n world \<times> dataTableCore \<Rightarrow> 'n world \<times> dataTableCore" where
  "afterChange name eventDetail s =
     (if isSilent eventDetail then s
      else (case uniqueKey (fireEvent name (fst s)) of
              (v, w') \<Rightarrow> (w', (snd s)\<lparr>versionTag := v\<rparr>)))"

definition setColumns ::
  "(string \<times> addr) list \<Rightarrow> nat option \<Rightarrow> detail option \<Rightarrow>
   'n world \<times> dataTableCore \<Rightarrow> 'n world \<times> dataTableCore" where
  "setColumns cols rowIndex eventDetail s =
     (case fold setColumnsColumn cols (fst s, snd s, rowCount (snd s)) of
        (w, t, n) \<Rightarrow> afterChange ''afterSetColumns'' eventDetail (applyRowCount n (w, t)))"

text \<open>\<^verbatim>\<open>setColumn\<close>: a missing \<^verbatim>\<open>column\<close> is a new empty array.\<close>

definition setColumn ::
  "string \<Rightarrow> addr option \<Rightarrow> nat option \<Rightarrow> detail option \<Rightarrow>
   'n world \<times> dataTableCore \<Rightarrow> 'n world \<times> dataTableCore" where
  "setColumn columnNameOrAlias column rowIndex eventDetail s =
     (case (case column of
              None \<Rightarrow> alloc (ArrayColumn []) (fst s)
            | Some a \<Rightarrow> (a, fst s)) of
        (a, w) \<Rightarrow>
          setColumns [(columnNameOrAlias, a)]
            (Some (case rowIndex of None \<Rightarrow> 0 | Some i \<Rightarrow> i)) eventDetail (w, snd s))"

text \<open>
  \<^verbatim>\<open>applyRowCount\<close> as \<^verbatim>\<open>setRow\<close> calls it, with a row count that need not be the
  length of any array: \<^verbatim>\<open>column.length = rowCount\<close> throws on the first array where the
  row count is no length of an array. (The constructor and \<^verbatim>\<open>setColumns\<close> pass the length
  of a supplied column.)
\<close>

definition applyRowCountChecked ::
  "nat \<Rightarrow> 'n world \<times> dataTableCore \<Rightarrow> error + 'n world \<times> dataTableCore" where
  "applyRowCountChecked n s =
     (if arrayLengthLimit \<le> n \<and>
         list_ex (\<lambda>entry. isArray (heap (fst s) (snd entry))) (columns (snd s))
      then Inl RangeError
      else Inr (applyRowCount n s))"

text \<open>
  \<^verbatim>\<open>setRow\<close>. In the helpers \<open>rowIndex\<close> is the index after its default and \<open>ins\<close>
  the truth of \<^verbatim>\<open>insert\<close> (the parameter \<open>insert'\<close> of \<open>setRow\<close> below). The write to
  one column is \<^verbatim>\<open>column.splice(rowIndex, 0, cellValue)\<close> or
  \<^verbatim>\<open>column[rowIndex] = cellValue\<close>. Only an array has \<^verbatim>\<open>splice\<close>: calling it on a
  typed array or on an inherited member throws, and on an array of the greatest length
  it throws when it sets the new length.
\<close>

fun writeCell ::
  "('n cell \<Rightarrow> 'n) \<Rightarrow> int \<Rightarrow> bool \<Rightarrow> 'n cell \<Rightarrow> 'n column \<Rightarrow> error + 'n column" where
  "writeCell toNumber rowIndex ins cellValue (ArrayColumn xs) =
     (if ins then
        (if arrayLengthLimit \<le> length xs + 1 then Inl RangeError
         else Inr (ArrayColumn (arraySplice xs rowIndex cellValue)))
      else Inr (ArrayColumn (arrayStore xs rowIndex cellValue)))"
| "writeCell toNumber rowIndex ins cellValue (TypedColumn ns) =
     (if ins then Inl TypeError
      else Inr (TypedColumn (typedStore toNumber ns rowIndex cellValue)))"
| "writeCell toNumber rowIndex ins cellValue (OtherObject ps) =
     (if ins then Inl TypeError
      else Inr (OtherObject (AList.update rowIndex cellValue ps)))"

text \<open>\<^verbatim>\<open>columns[columnName] || new Array(indexRowCount)\<close>: the table's own column of
  that name, else the inherited member of that name, else a new array.\<close>

definition columnOrNewArray ::
  "int \<Rightarrow> string \<Rightarrow> 'n world \<times> dataTableCore \<Rightarrow> error + addr \<times> 'n world" where
  "columnOrNewArray indexRowCount columnName s =
     (case map_of (columns (snd s)) columnName of
        Some a \<Rightarrow> Inr (a, fst s)
      | None \<Rightarrow>
          if columnName \<in> set objectPrototypeNames
          then Inr (objectPrototype (fst s) columnName, fst s)
          else (case newArray indexRowCount of
                  Inl e \<Rightarrow> Inl e
                | Inr c \<Rightarrow> Inr (alloc c (fst s))))"

text \<open>One cell of the row object: the column; the write;
  \<^verbatim>\<open>columns[columnName] = column\<close>. Assigning to the name \<^verbatim>\<open>__proto__\<close> makes no
  property: it sets the prototype, here to the object just read from that name.\<close>

definition setRowCell ::
  "('n cell \<Rightarrow> 'n) \<Rightarrow> int \<Rightarrow> bool \<Rightarrow> int \<Rightarrow> string \<times> 'n cell \<Rightarrow>
   'n world \<times> dataTableCore \<Rightarrow> error + 'n world \<times> dataTableCore" where
  "setRowCell toNumber rowIndex ins indexRowCount entry s =
     (case columnOrNewArray indexRowCount (fst entry) s of
        Inl e \<Rightarrow> Inl e
      | Inr (a, w) \<Rightarrow>
          (case writeCell toNumber rowIndex ins (snd entry) (heap w a) of
             Inl e \<Rightarrow> Inl e
           | Inr c \<Rightarrow>
               Inr (w\<lparr>heap := (heap w)(a := c)\<rparr>,
                    if fst entry = ''__proto__'' then snd s
                    else storeColumn (fst entry) a (snd s))))"

fun setRowCells ::
  "('n cell \<Rightarrow> 'n) \<Rightarrow> int \<Rightarrow> bool \<Rightarrow> int \<Rightarrow> (string \<times> 'n cell) list \<Rightarrow>
   'n world \<times> dataTableCore \<Rightarrow> error + 'n world \<times> dataTableCore" where
  "setRowCells toNumber rowIndex ins indexRowCount [] s = Inr s"
| "setRowCells toNumber rowIndex ins indexRowCount (entry # row) s =
     (case setRowCell toNumber rowIndex ins indexRowCount entry s of
        Inl e \<Rightarrow> Inl e
      | Inr s' \<Rightarrow> setRowCells toNumber rowIndex ins indexRowCount row s')"

definition setRow ::
  "('n cell \<Rightarrow> 'n) \<Rightarrow> (string \<times> 'n cell) list \<Rightarrow> int option \<Rightarrow> bool option \<Rightarrow>
   detail option \<Rightarrow> 'n world \<times> dataTableCore \<Rightarrow> error + 'n world \<times> dataTableCore" where
  "setRow toNumber row rowIndex insert' eventDetail s =
     (let i = (case rowIndex of None \<Rightarrow> int (rowCount (snd s)) | Some k \<Rightarrow> k);
          ins = (case insert' of None \<Rightarrow> False | Some b \<Rightarrow> b);
          indexRowCount =
            (if ins then numberPlusOne (int (rowCount (snd s))) else numberPlusOne i)
      in case setRowCells toNumber i ins indexRowCount row s of
           Inl e \<Rightarrow> Inl e
         | Inr s' \<Rightarrow>
             (case (if indexRowCount > int (rowCount (snd s'))
                    then applyRowCountChecked (nat indexRowCount) s'
                    else Inr s') of
                Inl e \<Rightarrow> Inl e
              | Inr s'' \<Rightarrow> Inr (afterChange ''afterSetRows'' eventDetail s'')))"

text \<open>
  What the claims speak of. The contents of the column of a name; the arrays of the
  caller at the addresses \<open>0, 1, \<dots>\<close> of an otherwise fresh world, followed by the
  inherited members; the references of a table, and the inherited members, being
  allocated; the references of a table being pairwise different;
  every array-backed column of a table having the length \<open>rowCount\<close>.
\<close>

definition columnOf :: "'n world \<Rightarrow> dataTableCore \<Rightarrow> string \<Rightarrow> 'n column option" where
  "columnOf w t columnName = map_option (heap w) (getColumn t columnName)"

definition worldOf :: "'n column list \<Rightarrow> 'n world" where
  "worldOf cs =
     \<lparr>heap = (\<lambda>a. if a < length cs then cs ! a else OtherObject []),
      nextAddr = length cs + length objectPrototypeNames, idCounter = 0, fired = [],
      objectPrototype =
        (\<lambda>name. case map_of (zip objectPrototypeNames [0 ..< length objectPrototypeNames])
                        name of
                   None \<Rightarrow> length cs
                 | Some k \<Rightarrow> length cs + k)\<rparr>"

definition allocated :: "'n world \<Rightarrow> (string \<times> addr) list \<Rightarrow> bool" where
  "allocated w cols = list_all (\<lambda>entry. snd entry < nextAddr w) cols"



definition hasRowCount :: "nat \<Rightarrow> 'n column \<Rightarrow> bool" where
  "hasRowCount n c =
     (case c of
        ArrayColumn xs \<Rightarrow> length xs = n
      | TypedColumn ns \<Rightarrow> True
      | OtherObject ps \<Rightarrow> True)"

definition lengthsOk :: "'n world \<Rightarrow> dataTableCore \<Rightarrow> bool" where
  "lengthsOk w t = list_all (\<lambda>entry. hasRowCount (rowCount t) (heap w (snd entry))) (columns t)"


definition maxLength :: "'n world \<Rightarrow> (string \<times> addr) list \<Rightarrow> nat" where
  "maxLength w cols = Max (set (0 # map (\<lambda>entry. columnLength (heap w (snd entry))) cols))"


definition arrayOrNew :: "'n world \<Rightarrow> dataTableCore \<Rightarrow> string \<Rightarrow> bool" where
  "arrayOrNew w t columnName =
     (case columnOf w t columnName of
        None \<Rightarrow> columnName \<notin> set objectPrototypeNames
      | Some c \<Rightarrow> isArray c \<and> columnLength c + 1 < arrayLengthLimit)"

definition arraysOnly :: "'n world \<Rightarrow> dataTableCore \<Rightarrow> (string \<times> 'n cell) list \<Rightarrow> bool" where
  "arraysOnly w t row = list_all (\<lambda>entry. arrayOrNew w t (fst entry)) row"



text \<open>The table \<^verbatim>\<open>{a: [1, 2], b: [3, 4]}\<close>, made by the constructor from the caller's
  two arrays.\<close>

definition exampleWorld :: "int world" where
  "exampleWorld =
     worldOf [ArrayColumn [CNumber 1, CNumber 2], ArrayColumn [CNumber 3, CNumber 4]]"

definition exampleTable :: "int world \<times> dataTableCore" where
  "exampleTable =
     newDataTableCore \<lparr>optionsId = None, optionsColumns = Some [(''a'', 0), (''b'', 1)]\<rparr>
       exampleWorld"

text \<open>The caller's arrays \<^verbatim>\<open>[1, 2, 3]\<close> and \<^verbatim>\<open>[9]\<close>, of different lengths, and the
  table the constructor makes of \<^verbatim>\<open>{a: [1, 2, 3], b: [9]}\<close>.\<close>

definition unevenWorld :: "int world" where
  "unevenWorld =
     worldOf [ArrayColumn [CNumber 1, CNumber 2, CNumber 3], ArrayColumn [CNumber 9]]"

definition unevenTable :: "int world \<times> dataTableCore" where
  "unevenTable =
     newDataTableCore \<lparr>optionsId = None, optionsColumns = Some [(''a'', 0), (''b'', 1)]\<rparr>
       unevenWorld"

text \<open>The table without columns that \<^verbatim>\<open>new DataTableCore()\<close> makes.\<close>

definition emptyTable :: "int world \<times> dataTableCore" where
  "emptyTable = newDataTableCore \<lparr>optionsId = None, optionsColumns = None\<rparr> (worldOf [])"

section \<open>EditToolbar\<close>

text \<open>
  Modelled from the spec: \<^verbatim>\<open>defined\<close> of Core/Utilities is not among the sources. It
  holds of a coordinate that is present.
\<close>

definition defined :: "'a option \<Rightarrow> bool" where
  "defined x = (case x of None \<Rightarrow> False | Some v \<Rightarrow> True)"

text \<open>
  The style of the container that \<^verbatim>\<open>css\<close> sets: both offsets are a number followed
  by \<^verbatim>\<open>px\<close>, kept here as the number. Of the toolbar, \<^verbatim>\<open>setPosition\<close> and \<^verbatim>\<open>hide\<close>
  touch the container and \<^verbatim>\<open>isVisible\<close> only. Coordinates are integers.
\<close>

record containerStyle =
  cssLeft :: int
  cssTop :: int

record editToolbar =
  container :: "containerStyle option"
  isVisible :: bool

text \<open>\<^verbatim>\<open>(x || '-9999')\<close>: a missing coordinate and the coordinate \<open>0\<close> are falsy.\<close>

definition offsetOr9999 :: "int option \<Rightarrow> int" where
  "offsetOr9999 x = (case x of None \<Rightarrow> - 9999 | Some v \<Rightarrow> if v = 0 then - 9999 else v)"

definition setPosition :: "int option \<Rightarrow> int option \<Rightarrow> editToolbar \<Rightarrow> editToolbar" where
  "setPosition x y toolbar =
     toolbar\<lparr>container :=
               (case container toolbar of
                  None \<Rightarrow> None
                | Some c \<Rightarrow> Some (c\<lparr>cssLeft := offsetOr9999 x, cssTop := offsetOr9999 y\<rparr>)),
             isVisible := defined x \<and> defined y\<rparr>"

definition hide :: "editToolbar \<Rightarrow> editToolbar" where
  "hide toolbar = setPosition None None toolbar"

section \<open>Sync\<close>

text \<open>
  A configuration is \<^verbatim>\<open>undefined\<close>, \<^verbatim>\<open>null\<close>, a boolean or the tuple that the
  constructor of the handler or emitter takes: \<^verbatim>\<open>[id, presentationStateTrigger, func]\<close>
  and \<^verbatim>\<open>[id, func]\<close>. Functions are values of the parameter \<open>'f\<close>.
\<close>

datatype 'c configOption = Missing | IsNull | Flag bool | Config 'c

type_synonym 'f handlerConfig = "string \<times> string \<times> 'f"

type_synonym 'f emitterConfig = "string \<times> 'f"

record 'f optionsEntry =
  emitter :: "'f emitterConfig configOption"
  handler :: "'f handlerConfig configOption"

text \<open>
  Modelled from the spec: the classes \<^verbatim>\<open>SyncHandler\<close> and \<^verbatim>\<open>SyncEmitter\<close> (Handler.js,
  Emitter.js) are not among the sources. An instance is constructed from the positional
  configuration tuple and has the tuple's identifier; its hook \<^verbatim>\<open>create(component)\<close>
  attaches it to the host component and \<^verbatim>\<open>remove()\<close> detaches it. The model numbers
  the instances in the order they are constructed and logs each construction and each
  call of a hook.
\<close>

record 'f syncHandler =
  handlerSerial :: nat
  handlerId :: string
  presentationStateTrigger :: string
  handlerFunc :: 'f

record 'f syncEmitter =
  emitterSerial :: nat
  emitterId :: string
  emitterFunc :: 'f

datatype syncEvent =
    NewHandler nat string | CreateHandler nat string | RemoveHandler nat string
  | NewEmitter nat string | CreateEmitter nat string | RemoveEmitter nat string

text \<open>The fields of the class (the host component is not modelled), the number of
  instances constructed so far and the log. The two registries are objects made by
  \<^verbatim>\<open>{}\<close>, used as dictionaries.\<close>

record 'f sync =
  registeredSyncHandlers :: "(string \<times> 'f syncHandler) list"
  registeredSyncEmitters :: "(string \<times> 'f syncEmitter) list"
  syncConfig :: "(string \<times> 'f optionsEntry) list"
  isSyncing :: bool
  instances :: nat
  syncLog :: "syncEvent list"

definition newSync :: "(string \<times> 'f optionsEntry) list \<Rightarrow> 'f sync" where
  "newSync syncHandlers =
     \<lparr>registeredSyncHandlers = [], registeredSyncEmitters = [], syncConfig = syncHandlers,
      isSyncing = False, instances = 0, syncLog = []\<rparr>"

definition newSyncHandler :: "'f handlerConfig \<Rightarrow> 'f sync \<Rightarrow> 'f syncHandler \<times> 'f sync" where
  "newSyncHandler config s =
     (\<lparr>handlerSerial = instances s, handlerId = fst config,
       presentationStateTrigger = fst (snd config), handlerFunc = snd (snd config)\<rparr>,
      s\<lparr>instances := Suc (instances s),
        syncLog := syncLog s @ [NewHandler (instances s) (fst config)]\<rparr>)"

definition newSyncEmitter :: "'f emitterConfig \<Rightarrow> 'f sync \<Rightarrow> 'f syncEmitter \<times> 'f sync" where
  "newSyncEmitter config s =
     (\<lparr>emitterSerial = instances s, emitterId = fst config, emitterFunc = snd config\<rparr>,
      s\<lparr>instances := Suc (instances s),
        syncLog := syncLog s @ [NewEmitter (instances s) (fst config)]\<rparr>)"

definition createHandler :: "'f syncHandler \<Rightarrow> 'f sync \<Rightarrow> 'f sync" where
  "createHandler h s =
     s\<lparr>syncLog := syncLog s @ [CreateHandler (handlerSerial h) (handlerId h)]\<rparr>"

definition createEmitter :: "'f syncEmitter \<Rightarrow> 'f sync \<Rightarrow> 'f sync" where
  "createEmitter e s =
     s\<lparr>syncLog := syncLog s @ [CreateEmitter (emitterSerial e) (emitterId e)]\<rparr>"

definition registerSyncEmitter :: "'f syncEmitter \<Rightarrow> 'f sync \<Rightarrow> 'f sync" where
  "registerSyncEmitter e s =
     s\<lparr>registeredSyncEmitters := objectSet (emitterId e) e (registeredSyncEmitters s)\<rparr>"

text \<open>\<^verbatim>\<open>Boolean(this.registeredSyncEmitters[id])\<close>: true of an identifier that has an
  entry and of the name of an inherited member.\<close>

definition isRegisteredEmitter :: "'f sync \<Rightarrow> string \<Rightarrow> bool" where
  "isRegisteredEmitter s i =
     (case map_of (registeredSyncEmitters s) i of
        None \<Rightarrow> i \<in> set objectPrototypeNames
      | Some e \<Rightarrow> True)"

definition registerSyncHandler :: "'f syncHandler \<Rightarrow> 'f sync \<Rightarrow> 'f sync" where
  "registerSyncHandler h s =
     s\<lparr>registeredSyncHandlers := objectSet (handlerId h) h (registeredSyncHandlers s)\<rparr>"

definition isRegisteredHandler :: "'f sync \<Rightarrow> string \<Rightarrow> bool" where
  "isRegisteredHandler s handlerID =
     (case map_of (registeredSyncHandlers s) handlerID of
        None \<Rightarrow> handlerID \<in> set objectPrototypeNames
      | Some h \<Rightarrow> True)"

text \<open>
  The handler half of one round of the loop of \<^verbatim>\<open>start\<close>. A falsy configuration
  disables it. For \<^verbatim>\<open>true\<close> the configuration is
  \<^verbatim>\<open>Sync.defaultHandlers[id].handler\<close>: reading a member of a missing entry throws, and
  so does spreading a member that is no tuple into the constructor's arguments. The
  instance is constructed first; the guard reads the identifier off it.
\<close>

definition resolveHandler ::
  "(string \<times> 'f optionsEntry) list \<Rightarrow> string \<Rightarrow> 'f handlerConfig configOption \<Rightarrow>
   error + 'f handlerConfig option" where
  "resolveHandler defaultHandlers i handlerConfig =
     (case handlerConfig of
        Missing \<Rightarrow> Inr None
      | IsNull \<Rightarrow> Inr None
      | Flag b \<Rightarrow>
          if b then
            (case map_of defaultHandlers i of
               None \<Rightarrow> Inl TypeError
             | Some d \<Rightarrow>
                 (case handler d of
                    Config c \<Rightarrow> Inr (Some c)
                  | Missing \<Rightarrow> Inl TypeError
                  | IsNull \<Rightarrow> Inl TypeError
                  | Flag b' \<Rightarrow> Inl TypeError))
          else Inr None
      | Config c \<Rightarrow> Inr (Some c))"

definition constructHandler :: "'f handlerConfig \<Rightarrow> 'f sync \<Rightarrow> 'f sync" where
  "constructHandler config s =
     (case newSyncHandler config s of
        (h, s1) \<Rightarrow>
          if \<not> isRegisteredHandler s1 (handlerId h)
          then createHandler h (registerSyncHandler h s1)
          else s1)"

definition startHandler ::
  "(string \<times> 'f optionsEntry) list \<Rightarrow> string \<Rightarrow> 'f handlerConfig configOption \<Rightarrow>
   'f sync \<Rightarrow> error + 'f sync" where
  "startHandler defaultHandlers i handlerConfig s =
     (case resolveHandler defaultHandlers i handlerConfig of
        Inl e \<Rightarrow> Inl e
      | Inr None \<Rightarrow> Inr s
      | Inr (Some c) \<Rightarrow> Inr (constructHandler c s))"

definition resolveEmitter ::
  "(string \<times> 'f optionsEntry) list \<Rightarrow> string \<Rightarrow> 'f emitterConfig configOption \<Rightarrow>
   error + 'f emitterConfig option" where
  "resolveEmitter defaultHandlers i emitterConfig =
     (case emitterConfig of
        Missing \<Rightarrow> Inr None
      | IsNull \<Rightarrow> Inr None
      | Flag b \<Rightarrow>
          if b then
            (case map_of defaultHandlers i of
               None \<Rightarrow> Inl TypeError
             | Some d \<Rightarrow>
                 (case emitter d of
                    Config c \<Rightarrow> Inr (Some c)
                  | Missing \<Rightarrow> Inl TypeError
                  | IsNull \<Rightarrow> Inl TypeError
                  | Flag b' \<Rightarrow> Inl TypeError))
          else Inr None
      | Config c \<Rightarrow> Inr (Some c))"

definition constructEmitter :: "'f emitterConfig \<Rightarrow> 'f sync \<Rightarrow> 'f sync" where
  "constructEmitter config s =
     (case newSyncEmitter config s of
        (e, s1) \<Rightarrow>
          if \<not> isRegisteredEmitter s1 (emitterId e)
          then createEmitter e (registerSyncEmitter e s1)
          else s1)"

definition startEmitter ::
  "(string \<times> 'f optionsEntry) list \<Rightarrow> string \<Rightarrow> 'f emitterConfig configOption \<Rightarrow>
   'f sync \<Rightarrow> error + 'f sync" where
  "startEmitter defaultHandlers i emitterConfig s =
     (case resolveEmitter defaultHandlers i emitterConfig of
        Inl e \<Rightarrow> Inl e
      | Inr None \<Rightarrow> Inr s
      | Inr (Some c) \<Rightarrow> Inr (constructEmitter c s))"

definition startEntry ::
  "(string \<times> 'f optionsEntry) list \<Rightarrow> string \<times> 'f optionsEntry \<Rightarrow> 'f sync \<Rightarrow>
   error + 'f sync" where
  "startEntry defaultHandlers entry s =
     (case startHandler defaultHandlers (fst entry) (handler (snd entry)) s of
        Inl e \<Rightarrow> Inl e
      | Inr s1 \<Rightarrow> startEmitter defaultHandlers (fst entry) (emitter (snd entry)) s1)"

fun startEntries ::
  "(string \<times> 'f optionsEntry) list \<Rightarrow> (string \<times> 'f optionsEntry) list \<Rightarrow> 'f sync \<Rightarrow>
   error + 'f sync" where
  "startEntries defaultHandlers [] s = Inr s"
| "startEntries defaultHandlers (entry # entries) s =
     (case startEntry defaultHandlers entry s of
        Inl e \<Rightarrow> Inl e
      | Inr s1 \<Rightarrow> startEntries defaultHandlers entries s1)"

text \<open>\<^verbatim>\<open>start\<close>; \<open>defaultHandlers\<close> is the static \<^verbatim>\<open>Sync.defaultHandlers\<close>.\<close>

definition start :: "(string \<times> 'f optionsEntry) list \<Rightarrow> 'f sync \<Rightarrow> error + 'f sync" where
  "start defaultHandlers s =
     (case startEntries defaultHandlers (syncConfig s) s of
        Inl e \<Rightarrow> Inl e
      | Inr s1 \<Rightarrow> Inr (s1\<lparr>isSyncing := True\<rparr>))"

text \<open>\<^verbatim>\<open>stop\<close>: every registered handler, then every registered emitter, is removed
  and deleted from its registry.\<close>

definition stop :: "'f sync \<Rightarrow> 'f sync" where
  "stop s =
     s\<lparr>registeredSyncHandlers := [], registeredSyncEmitters := [], isSyncing := False,
       syncLog := syncLog s
         @ map (\<lambda>entry. RemoveHandler (handlerSerial (snd entry)) (handlerId (snd entry)))
             (registeredSyncHandlers s)
         @ map (\<lambda>entry. RemoveEmitter (emitterSerial (snd entry)) (emitterId (snd entry)))
             (registeredSyncEmitters s)\<rparr>"

text \<open>How often the hook \<^verbatim>\<open>create\<close> was called, and how many instances were
  constructed, for one identifier.\<close>

fun isCreateHandler :: "string \<Rightarrow> syncEvent \<Rightarrow> bool" where
  "isCreateHandler i (CreateHandler n j) = (i = j)"
| "isCreateHandler i e = False"

fun isCreateEmitter :: "string \<Rightarrow> syncEvent \<Rightarrow> bool" where
  "isCreateEmitter i (CreateEmitter n j) = (i = j)"
| "isCreateEmitter i e = False"

fun isNewHandler :: "string \<Rightarrow> syncEvent \<Rightarrow> bool" where
  "isNewHandler i (NewHandler n j) = (i = j)"
| "isNewHandler i e = False"

fun isNewEmitter :: "string \<Rightarrow> syncEvent \<Rightarrow> bool" where
  "isNewEmitter i (NewEmitter n j) = (i = j)"
| "isNewEmitter i e = False"

definition countOf :: "(syncEvent \<Rightarrow> bool) \<Rightarrow> 'f sync \<Rightarrow> nat" where
  "countOf p s = length (filter p (syncLog s))"

text \<open>
  The guard of \<^verbatim>\<open>start\<close> between two states, for one identifier: the hook \<^verbatim>\<open>create\<close>
  was called once more if the identifier became registered and not at all otherwise,
  and an instance that was registered is still the registered one.
\<close>

definition handlerGuarded :: "string \<Rightarrow> 'f sync \<Rightarrow> 'f sync \<Rightarrow> bool" where
  "handlerGuarded i s s' =
     (countOf (isCreateHandler i) s' =
        countOf (isCreateHandler i) s
          + (if isRegisteredHandler s' i \<and> \<not> isRegisteredHandler s i then 1 else 0) \<and>
      (isRegisteredHandler s i \<longrightarrow>
         map_of (registeredSyncHandlers s') i = map_of (registeredSyncHandlers s) i))"

definition emitterGuarded :: "string \<Rightarrow> 'f sync \<Rightarrow> 'f sync \<Rightarrow> bool" where
  "emitterGuarded i s s' =
     (countOf (isCreateEmitter i) s' =
        countOf (isCreateEmitter i) s
          + (if isRegisteredEmitter s' i \<and> \<not> isRegisteredEmitter s i then 1 else 0) \<and>
      (isRegisteredEmitter s i \<longrightarrow>
         map_of (registeredSyncEmitters s') i = map_of (registeredSyncEmitters s) i))"

text \<open>
  The configurations that \<^verbatim>\<open>start\<close> passes to \<^verbatim>\<open>new SyncHandler\<close> and to
  \<^verbatim>\<open>new SyncEmitter\<close>: one for each entry whose handler, or emitter, is enabled.
\<close>

definition constructedHandlers ::
  "(string \<times> 'f optionsEntry) list \<Rightarrow> (string \<times> 'f optionsEntry) list \<Rightarrow>
   'f handlerConfig list" where
  "constructedHandlers defaultHandlers entries =
     concat (map (\<lambda>entry.
       case resolveHandler defaultHandlers (fst entry) (handler (snd entry)) of
         Inl e \<Rightarrow> []
       | Inr None \<Rightarrow> []
       | Inr (Some c) \<Rightarrow> [c]) entries)"

definition constructedEmitters ::
  "(string \<times> 'f optionsEntry) list \<Rightarrow> (string \<times> 'f optionsEntry) list \<Rightarrow>
   'f emitterConfig list" where
  "constructedEmitters defaultHandlers entries =
     concat (map (\<lambda>entry.
       case resolveEmitter defaultHandlers (fst entry) (emitter (snd entry)) of
         Inl e \<Rightarrow> []
       | Inr None \<Rightarrow> []
       | Inr (Some c) \<Rightarrow> [c]) entries)"

text \<open>What every round of the loop of \<^verbatim>\<open>start\<close> keeps: the guard for every identifier,
  one entry for each registered identifier, and the configuration.\<close>

definition guardedStep :: "'f sync \<Rightarrow> 'f sync \<Rightarrow> bool" where
  "guardedStep s s' =
     ((\<forall>i. handlerGuarded i s s') \<and> (\<forall>i. emitterGuarded i s s') \<and>
      (distinct (map fst (registeredSyncHandlers s)) \<longrightarrow>
         distinct (map fst (registeredSyncHandlers s'))) \<and>
      (distinct (map fst (registeredSyncEmitters s)) \<longrightarrow>
         distinct (map fst (registeredSyncEmitters s'))) \<and>
      syncConfig s' = syncConfig s)"

text \<open>Two events of one component that share one handler, as in the comment of
  \<^verbatim>\<open>start\<close> ("panning and selection uses the same handler").\<close>

definition sharedConfig :: "(string \<times> nat optionsEntry) list" where
  "sharedConfig =
     [(''selection'',
         \<lparr>emitter = Config (''selectionEmitter'', 0),
          handler = Config (''extremesHandler'', ''afterSetExtremes'', 1)\<rparr>),
      (''panning'',
         \<lparr>emitter = Flag True,
          handler = Config (''extremesHandler'', ''afterSetExtremes'', 1)\<rparr>)]"

definition sharedDefaults :: "(string \<times> nat optionsEntry) list" where
  "sharedDefaults =
     [(''panning'', \<lparr>emitter = Config (''panningEmitter'', 2), handler = Missing\<rparr>)]"

text \<open>The state after \<^verbatim>\<open>start()\<close> on a new \<^verbatim>\<open>Sync\<close> with that configuration, and after
  a second \<^verbatim>\<open>start()\<close>.\<close>

definition sharedStarted :: "nat sync" where
  "sharedStarted =
     (case start sharedDefaults (newSync sharedConfig) of
        Inl e \<Rightarrow> newSync sharedConfig
      | Inr s \<Rightarrow> s)"

definition sharedRestarted :: "nat sync" where
  "sharedRestarted =
     (case start sharedDefaults sharedStarted of Inl e \<Rightarrow> sharedStarted | Inr s \<Rightarrow> s)"

section \<open>Setting a property of a dictionary\<close>

lemma set_insertIndexed [simp]: "set (insertIndexed n e ps) = insert e (set ps)"
  by (induction ps) (auto split: option.splits)

lemma map_of_insertIndexed:
  "map_of ps k = None \<Longrightarrow> map_of (insertIndexed n (k, v) ps) = (map_of ps)(k \<mapsto> v)"
proof (induction ps)
  case Nil
  then show ?case by simp
next
  case (Cons p ps)
  then have "fst p \<noteq> k" and "map_of ps k = None"
    by (auto split: if_splits)
  with Cons.IH show ?case
    by (cases p) (auto simp add: fun_upd_twist split: option.splits)
qed

lemma distinct_insertIndexed:
  "distinct (map fst (insertIndexed n e ps)) = (fst e \<notin> fst ` set ps \<and> distinct (map fst ps))"
  by (induction ps) (auto split: option.splits)

lemma map_of_append_absent:
  "map_of al k = None \<Longrightarrow> map_of (al @ [(k, v)]) = (map_of al)(k \<mapsto> v)"
  by (rule ext) (auto simp add: map_add_def split: option.splits)

lemma objectSet_conv': "map_of (objectSet k v al) = (map_of al)(k \<mapsto> v)"
  by (simp add: objectSet_def update_conv' map_of_insertIndexed map_of_append_absent
      del: map_of_append split: option.splits)


lemma set_objectSet_subset: "set (objectSet k v al) \<subseteq> insert (k, v) (set al)"
proof -
  have "set (AList.update k v al) \<subseteq> insert (k, v) (set al)"
    by (induction al) auto
  then show ?thesis
    by (auto simp add: objectSet_def split: option.splits)
qed

lemma set_objectSet_absent:
  "map_of al k = None \<Longrightarrow> set (objectSet k v al) = insert (k, v) (set al)"
  by (auto simp add: objectSet_def split: option.splits)

lemma dom_objectSet: "fst ` set (objectSet k v al) = insert k (fst ` set al)"
  by (auto simp add: objectSet_def dom_update map_of_eq_None_iff split: option.splits)

lemma distinct_objectSet:
  "distinct (map fst al) \<Longrightarrow> distinct (map fst (objectSet k v al))"
  by (auto simp add: objectSet_def distinct_update distinct_insertIndexed map_of_eq_None_iff
      split: option.splits)

lemma arrayIndexOf_letters [simp]:
  "arrayIndexOf ''a'' = None" "arrayIndexOf ''b'' = None" "arrayIndexOf ''c'' = None"
  by (simp_all add: arrayIndexOf_def)

section \<open>Evaluating the table on examples\<close>

lemmas table_defs =
  newDataTableCore_def constructorColumn_def setColumns_def setColumnsColumn_def
  setColumn_def setRow_def setRowCell_def columnOrNewArray_def applyRowCountChecked_def
  applyRowCount_def applyLength_def afterChange_def objectSet_def objectPrototypeNames_def
  numberPlusOne_def arrayLengthLimit_def
  storeColumn_def slice_def alloc_def uniqueKey_def fireEvent_def isSilent_def worldOf_def
  columnOf_def getColumn_def newArray_def arraySetLength_def arrayStore_def arraySplice_def
  typedStore_def cellAt_def getRow_def namesOrKeys_def exampleWorld_def exampleTable_def
  unevenWorld_def unevenTable_def emptyTable_def

text \<open>
  Claim C7. On the table \<^verbatim>\<open>{a: [1, 2], b: [3, 4]}\<close> (row count 2), \<^verbatim>\<open>setRow({a: 5, b: 6})\<close>
  with no row index and no insert flag writes at the default index \<open>rowCount = 2\<close>:
  it returns normally, after it the column \<^verbatim>\<open>a\<close> is \<^verbatim>\<open>[1, 2, 5]\<close> and the row count
  is 3.
\<close>

theorem setRow_appends_example:
  "(case exampleTable of
      (w, t) \<Rightarrow>
        columnOf w t ''a'' = Some (ArrayColumn [CNumber 1, CNumber 2]) \<and>
        columnOf w t ''b'' = Some (ArrayColumn [CNumber 3, CNumber 4]) \<and>
        rowCount t = 2 \<and>
        (case setRow (\<lambda>c. 0) [(''a'', CNumber 5), (''b'', CNumber 6)] None None None (w, t) of
           Inl e \<Rightarrow> False
         | Inr (w', t') \<Rightarrow>
             columnOf w' t' ''a'' = Some (ArrayColumn [CNumber 1, CNumber 2, CNumber 5]) \<and>
             rowCount t' = 3))"
  by (simp add: table_defs Let_def)

text \<open>
  Claim C1 fails on the code. \<^verbatim>\<open>setColumns({a: [1, 2, 3], b: [9]})\<close> on an empty table
  leaves the row count 1, the length of the column enumerated last, where the maximum
  length among the supplied columns is 3; the column \<^verbatim>\<open>a\<close> is cut to \<^verbatim>\<open>[1]\<close>.
\<close>

theorem setColumns_rowCount_last_length:
  "(case setColumns [(''a'', 0), (''b'', 1)] None None
          (newDataTableCore \<lparr>optionsId = None, optionsColumns = None\<rparr> unevenWorld) of
      (w, t) \<Rightarrow>
        rowCount t = 1 \<and>
        maxLength unevenWorld [(''a'', 0), (''b'', 1)] = 3 \<and>
        columnOf w t ''a'' = Some (ArrayColumn [CNumber 1]) \<and>
        columnOf w t ''b'' = Some (ArrayColumn [CNumber 9]))"
  by (simp add: table_defs Let_def maxLength_def)

text \<open>
  Claim C2 fails on the code. On the table \<^verbatim>\<open>{a: [1, 2], b: [3, 4]}\<close>, where every
  column has the length \<open>rowCount = 2\<close>, \<^verbatim>\<open>setRow({c: 5}, 0)\<close> creates the column \<^verbatim>\<open>c\<close> as
  \<^verbatim>\<open>new Array(1)\<close> and does not call \<^verbatim>\<open>applyRowCount\<close>: afterwards the row count is 2
  and the array-backed column \<^verbatim>\<open>c\<close> has length 1.
\<close>

theorem setRow_new_column_shorter_than_rowCount:
  "(case exampleTable of
      (w, t) \<Rightarrow>
        lengthsOk w t \<and>
        (case setRow (\<lambda>c. 0) [(''c'', CNumber 5)] (Some 0) None None (w, t) of
           Inl e \<Rightarrow> False
         | Inr (w', t') \<Rightarrow>
             rowCount t' = 2 \<and>
             columnOf w' t' ''c'' = Some (ArrayColumn [CNumber 5]) \<and>
             \<not> lengthsOk w' t'))"
  by (simp add: table_defs Let_def lengthsOk_def hasRowCount_def)

section \<open>What the loops leave alone\<close>

lemma applyLength_frame [simp]:
  "idCounter (applyLength n a w) = idCounter w"
  "fired (applyLength n a w) = fired w"
  "nextAddr (applyLength n a w) = nextAddr w"
  by (simp_all add: applyLength_def)

lemma fold_applyLength_frame [simp]:
  "idCounter (fold (\<lambda>entry. applyLength n (snd entry)) cols w) = idCounter w"
  "fired (fold (\<lambda>entry. applyLength n (snd entry)) cols w) = fired w"
  "nextAddr (fold (\<lambda>entry. applyLength n (snd entry)) cols w) = nextAddr w"
  by (induction cols arbitrary: w) simp_all

lemma applyRowCount_frame [simp]:
  "idCounter (fst (applyRowCount n s)) = idCounter (fst s)"
  "fired (fst (applyRowCount n s)) = fired (fst s)"
  "nextAddr (fst (applyRowCount n s)) = nextAddr (fst s)"
  "versionTag (snd (applyRowCount n s)) = versionTag (snd s)"
  "columns (snd (applyRowCount n s)) = columns (snd s)"
  "rowCount (snd (applyRowCount n s)) = n"
  by (simp_all add: applyRowCount_def)

lemma setColumnsColumn_frame [simp]:
  "idCounter (fst (setColumnsColumn entry s)) = idCounter (fst s)"
  "fired (fst (setColumnsColumn entry s)) = fired (fst s)"
  "versionTag (fst (snd (setColumnsColumn entry s))) = versionTag (fst (snd s))"
  by (simp_all add: setColumnsColumn_def slice_def alloc_def storeColumn_def split: prod.splits)

lemma fold_setColumnsColumn_frame [simp]:
  "idCounter (fst (fold setColumnsColumn cols s)) = idCounter (fst s)"
  "fired (fst (fold setColumnsColumn cols s)) = fired (fst s)"
  "versionTag (fst (snd (fold setColumnsColumn cols s))) = versionTag (fst (snd s))"
  by (induction cols arbitrary: s) simp_all



lemma setColumns_unfold:
  "setColumns cols rowIndex eventDetail s =
     afterChange ''afterSetColumns'' eventDetail
       (applyRowCount (snd (snd (fold setColumnsColumn cols (fst s, snd s, rowCount (snd s)))))
          (fst (fold setColumnsColumn cols (fst s, snd s, rowCount (snd s))),
           fst (snd (fold setColumnsColumn cols (fst s, snd s, rowCount (snd s))))))"
  by (simp add: setColumns_def split: prod.splits)



section \<open>Reading rows\<close>



section \<open>The toolbar\<close>

text \<open>
  Claim C9. After \<^verbatim>\<open>setPosition(x, y)\<close> the flag \<^verbatim>\<open>isVisible\<close> is true exactly when both
  coordinates are present, and \<^verbatim>\<open>hide()\<close> is \<^verbatim>\<open>setPosition(undefined, undefined)\<close>.
\<close>

theorem setPosition_isVisible:
  "isVisible (setPosition x y toolbar) = (x \<noteq> None \<and> y \<noteq> None) \<and>
   hide toolbar = setPosition None None toolbar"
  by (simp add: setPosition_def hide_def defined_def split: option.splits)

section \<open>The constructor\<close>

lemma constructorColumn_step:
  "constructorColumn (name, a) (w, t, n) =
     (w\<lparr>heap := (heap w)(nextAddr w := heap w a), nextAddr := Suc (nextAddr w)\<rparr>,
      t\<lparr>columns := objectSet name (nextAddr w) (columns t)\<rparr>,
      max n (columnLength (heap w a)))"
  by (simp add: constructorColumn_def slice_def alloc_def storeColumn_def)

lemma allocated_Cons [simp]:
  "allocated w (e # cols) = (snd e < nextAddr w \<and> allocated w cols)"
  by (simp add: allocated_def)

lemma allocated_Nil [simp]: "allocated w []"
  by (simp add: allocated_def)

lemma allocated_mono:
  "allocated w cols \<Longrightarrow> nextAddr w \<le> nextAddr w' \<Longrightarrow> allocated w' cols"
  by (induction cols) auto

lemma allocated_nth:
  "allocated w cols \<Longrightarrow> j < length cols \<Longrightarrow> snd (cols ! j) < nextAddr w"
  by (simp add: allocated_def list_all_length)

lemma allocated_member:
  "allocated w cols \<Longrightarrow> e \<in> set cols \<Longrightarrow> snd e < nextAddr w"
  by (simp add: allocated_def list_all_iff)

lemma maxLength_Nil [simp]: "maxLength w [] = 0"
  by (simp add: maxLength_def)

lemma maxLength_Cons:
  "maxLength w (e # cols) = max (columnLength (heap w (snd e))) (maxLength w cols)"
proof -
  have "Max (insert 0 (insert (columnLength (heap w (snd e)))
          (set (map (\<lambda>entry. columnLength (heap w (snd entry))) cols))))
        = max (columnLength (heap w (snd e)))
            (Max (insert 0 (set (map (\<lambda>entry. columnLength (heap w (snd entry))) cols))))"
    by (subst insert_commute) (rule Max_insert, simp_all)
  then show ?thesis
    by (simp add: maxLength_def)
qed

lemma maxLength_cong:
  "\<forall>e \<in> set cols. heap w' (snd e) = heap w (snd e) \<Longrightarrow> maxLength w' cols = maxLength w cols"
  by (induction cols) (simp_all add: maxLength_Cons)

lemma fold_constructorColumn:
  "distinct (map fst cs) \<Longrightarrow> allocated w cs \<Longrightarrow>
   fold constructorColumn cs (w, t, n) = (w', t', n') \<Longrightarrow>
   nextAddr w' = nextAddr w + length cs \<and>
   (\<forall>a < nextAddr w. heap w' a = heap w a) \<and>
   n' = max n (maxLength w cs) \<and>
   (\<forall>j < length cs. map_of (columns t') (fst (cs ! j)) = Some (nextAddr w + j) \<and>
        heap w' (nextAddr w + j) = heap w (snd (cs ! j))) \<and>
   (\<forall>name. name \<notin> fst ` set cs \<longrightarrow> map_of (columns t') name = map_of (columns t) name) \<and>
   fst ` set (columns t') = fst ` set (columns t) \<union> fst ` set cs \<and>
   idCounter w' = idCounter w \<and> fired w' = fired w \<and>
   t' = t\<lparr>columns := columns t'\<rparr> \<and>
   (\<forall>b \<in> snd ` set (columns t'). b \<in> snd ` set (columns t) \<or> nextAddr w \<le> b)"
proof (induction cs arbitrary: w t n)
  case Nil
  then show ?case by simp
next
  case (Cons e cs)
  obtain name a where e: "e = (name, a)" by (cases e)
  define w1 where "w1 = w\<lparr>heap := (heap w)(nextAddr w := heap w a), nextAddr := Suc (nextAddr w)\<rparr>"
  define t1 where "t1 = t\<lparr>columns := objectSet name (nextAddr w) (columns t)\<rparr>"
  define n1 where "n1 = max n (columnLength (heap w a))"
  from Cons.prems have d: "distinct (map fst cs)" and nm: "name \<notin> fst ` set cs"
    and a: "a < nextAddr w" and al0: "allocated w cs"
    by (auto simp add: e)
  from al0 have al: "allocated w1 cs"
    by (rule allocated_mono) (simp add: w1_def)
  from Cons.prems(3) have f: "fold constructorColumn cs (w1, t1, n1) = (w', t', n')"
    by (simp add: e constructorColumn_step w1_def t1_def n1_def)
  note IH = Cons.IH [OF d al f]
  have old: "heap w1 b = heap w b" if "b < nextAddr w" for b
    using that by (simp add: w1_def)
  have same: "\<forall>e \<in> set cs. heap w1 (snd e) = heap w (snd e)"
    using al0 old by (auto dest: allocated_member)
  have next1: "nextAddr w1 = Suc (nextAddr w)"
    by (simp add: w1_def)
  have c1: "nextAddr w' = nextAddr w + length (e # cs)"
    using IH next1 by simp
  have c2: "\<forall>b < nextAddr w. heap w' b = heap w b"
    using IH next1 old by simp
  have c3: "n' = max n (maxLength w (e # cs))"
    using IH maxLength_cong [OF same] by (simp add: n1_def maxLength_Cons e max.assoc)
  have c4: "map_of (columns t') (fst ((e # cs) ! j)) = Some (nextAddr w + j) \<and>
        heap w' (nextAddr w + j) = heap w (snd ((e # cs) ! j))" if j: "j < length (e # cs)" for j
  proof (cases j)
    case 0
    have "map_of (columns t') name = map_of (columns t1) name"
      using IH nm by simp
    moreover have "heap w' (nextAddr w) = heap w1 (nextAddr w)"
      using IH next1 by simp
    ultimately show ?thesis
      by (simp add: 0 e t1_def w1_def objectSet_conv')
  next
    case (Suc k)
    with j have k: "k < length cs" by simp
    then have "snd (cs ! k) < nextAddr w"
      using al0 by (simp add: allocated_nth)
    then show ?thesis
      using IH k next1 old by (simp add: Suc)
  qed
  have c5: "\<forall>x. x \<notin> fst ` set (e # cs) \<longrightarrow> map_of (columns t') x = map_of (columns t) x"
    using IH by (simp add: e t1_def objectSet_conv')
  have c6: "fst ` set (columns t') = fst ` set (columns t) \<union> fst ` set (e # cs)"
    using IH by (auto simp add: e t1_def dom_objectSet)
  have c7: "idCounter w' = idCounter w \<and> fired w' = fired w"
    using IH by (simp add: w1_def)
  have c8: "t' = t\<lparr>columns := columns t'\<rparr>"
  proof -
    from IH have "t' = t1\<lparr>columns := columns t'\<rparr>" by simp
    then show ?thesis by (simp add: t1_def)
  qed
  have c9: "\<forall>b \<in> snd ` set (columns t'). b \<in> snd ` set (columns t) \<or> nextAddr w \<le> b"
  proof
    fix b
    assume "b \<in> snd ` set (columns t')"
    with IH have "b \<in> snd ` set (columns t1) \<or> nextAddr w1 \<le> b"
      by blast
    moreover have "snd ` set (columns t1) \<subseteq> insert (nextAddr w) (snd ` set (columns t))"
      using set_objectSet_subset [of name "nextAddr w" "columns t"] by (auto simp add: t1_def)
    ultimately show "b \<in> snd ` set (columns t) \<or> nextAddr w \<le> b"
      using next1 by auto
  qed
  from c1 c2 c3 c4 c5 c6 c7 c8 c9 show ?case
    by blast
qed

lemma setLengthIfArray_idem [simp]:
  "setLengthIfArray n (setLengthIfArray n c) = setLengthIfArray n c"
  by (cases c) (simp_all add: arraySetLength_def)

lemma heap_fold_applyLength:
  "heap (fold (\<lambda>entry. applyLength n (snd entry)) cols w) a =
     (if a \<in> snd ` set cols then setLengthIfArray n (heap w a) else heap w a)"
  by (induction cols arbitrary: w) (auto simp add: applyLength_def)


lemma maxLength_ge:
  "e \<in> set cols \<Longrightarrow> columnLength (heap w (snd e)) \<le> maxLength w cols"
  by (induction cols) (auto simp add: maxLength_Cons)

lemma columnAt_setLengthIfArray:
  "i < n \<or> columnLength c \<le> n \<Longrightarrow> columnAt (setLengthIfArray n c) i = columnAt c i"
  by (cases c) (auto simp add: arraySetLength_def nth_append)

lemma newDataTableCore_obtain:
  assumes "optionsColumns options = Some cs"
  obtains w2 t0 w3 t3 n where
    "heap w2 = heap w" and "nextAddr w2 = nextAddr w" and "columns t0 = []"
    and "fold constructorColumn cs (w2, t0, 0) = (w3, t3, n)"
    and "newDataTableCore options w = applyRowCount n (w3, t3)"
proof -
  obtain i w1 where 1:
    "(case optionsId options of
        None \<Rightarrow> uniqueKey w
      | Some s \<Rightarrow> if s = [] then uniqueKey w else (Given s, w)) = (i, w1)"
    by fastforce
  obtain v w2 where 2: "uniqueKey w1 = (v, w2)"
    by fastforce
  define t0 where
    "t0 = \<lparr>autoId = (case optionsId options of None \<Rightarrow> True | Some s \<Rightarrow> s = []),
           columns = [], tableId = i, rowCount = 0, versionTag = v\<rparr>"
  obtain w3 t3 n where 3: "fold constructorColumn cs (w2, t0, 0) = (w3, t3, n)"
    by (cases "fold constructorColumn cs (w2, t0, 0)")
  from 1 2 have "heap w2 = heap w" and "nextAddr w2 = nextAddr w"
    by (auto simp add: uniqueKey_def split: option.splits if_splits)
  moreover have "columns t0 = []"
    by (simp add: t0_def)
  moreover from 1 2 3 assms have "newDataTableCore options w = applyRowCount n (w3, t3)"
    by (simp add: newDataTableCore_def Let_def t0_def)
  ultimately show thesis
    using 3 that by blast
qed

text \<open>
  Claim C10. A table constructed from options with initial columns (a caller's object:
  its names differ, its arrays exist) has as row count the maximum of the lengths of
  the supplied arrays. The constructor leaves the caller's arrays as they are; under each
  supplied name the table holds a new array, none of the caller's, with the elements of
  the caller's array (padded to the row count), so that every cell read through the table
  is the caller's cell at the time of construction. Whatever the caller writes to the
  arrays that existed before the construction, every cell read through the table stays
  the same.
\<close>

theorem newDataTableCore_rowCount_and_copies:
  assumes cols: "optionsColumns options = Some cs"
    and names: "distinct (map fst cs)"
    and callers: "allocated w cs"
  shows
    "rowCount (snd (newDataTableCore options w)) = maxLength w cs \<and>
     fst ` set (columns (snd (newDataTableCore options w))) = fst ` set cs \<and>
     (\<forall>a < nextAddr w. heap (fst (newDataTableCore options w)) a = heap w a) \<and>
     (\<forall>entry \<in> set cs.
        \<exists>b. getColumn (snd (newDataTableCore options w)) (fst entry) = Some b \<and>
            nextAddr w \<le> b \<and>
            heap (fst (newDataTableCore options w)) b
              = setLengthIfArray (maxLength w cs) (heap w (snd entry)) \<and>
            (\<forall>i. cellAt (fst (newDataTableCore options w)) (snd (newDataTableCore options w))
                   (fst entry) i
                 = columnAt (heap w (snd entry)) i)) \<and>
     (\<forall>h. (\<forall>b. nextAddr w \<le> b \<longrightarrow> h b = heap (fst (newDataTableCore options w)) b) \<longrightarrow>
        (\<forall>name i.
           cellAt ((fst (newDataTableCore options w))\<lparr>heap := h\<rparr>)
             (snd (newDataTableCore options w)) name i
           = cellAt (fst (newDataTableCore options w)) (snd (newDataTableCore options w)) name i))"
proof -
  from cols obtain w2 t0 w3 t3 n where
    h2: "heap w2 = heap w" and n2: "nextAddr w2 = nextAddr w" and c0: "columns t0 = []"
    and f: "fold constructorColumn cs (w2, t0, 0) = (w3, t3, n)"
    and new: "newDataTableCore options w = applyRowCount n (w3, t3)"
    by (rule newDataTableCore_obtain)
  from callers n2 have al: "allocated w2 cs"
    by (auto intro: allocated_mono)
  note F = fold_constructorColumn [OF names al f]
  define w' where "w' = fst (newDataTableCore options w)"
  define t where "t = snd (newDataTableCore options w)"
  have ml: "maxLength w2 cs = maxLength w cs"
    by (rule maxLength_cong) (simp add: h2)
  have n: "n = maxLength w cs"
    using F ml by simp
  have t: "columns t = columns t3" "rowCount t = n"
    by (simp_all add: t_def new)
  have heap': "heap w' a =
      (if a \<in> snd ` set (columns t3) then setLengthIfArray n (heap w3 a) else heap w3 a)" for a
    by (simp add: w'_def new applyRowCount_def heap_fold_applyLength)
  have fresh: "nextAddr w \<le> b" if "b \<in> snd ` set (columns t3)" for b
    using F that c0 n2 by auto
  have r1: "rowCount t = maxLength w cs"
    using t n by simp
  have r2: "fst ` set (columns t) = fst ` set cs"
    using F c0 t by simp
  have r3: "\<forall>a < nextAddr w. heap w' a = heap w a"
  proof (intro allI impI)
    fix a assume a: "a < nextAddr w"
    then have "a \<notin> snd ` set (columns t3)"
      using fresh by fastforce
    then show "heap w' a = heap w a"
      using F a n2 h2 by (simp add: heap')
  qed
  have r4: "\<exists>b. getColumn t (fst entry) = Some b \<and> nextAddr w \<le> b \<and>
            heap w' b = setLengthIfArray (maxLength w cs) (heap w (snd entry)) \<and>
            (\<forall>i. cellAt w' t (fst entry) i = columnAt (heap w (snd entry)) i)"
    if entry: "entry \<in> set cs" for entry
  proof -
    from entry obtain j where j: "j < length cs" "cs ! j = entry"
      by (auto simp add: in_set_conv_nth)
    define b where "b = nextAddr w + j"
    from F j have m: "map_of (columns t3) (fst entry) = Some b"
      and c: "heap w3 b = heap w (snd entry)"
      by (auto simp add: b_def n2 h2)
    from m have "b \<in> snd ` set (columns t3)"
      by (force dest: map_of_SomeD)
    then have hb: "heap w' b = setLengthIfArray (maxLength w cs) (heap w (snd entry))"
      by (simp add: heap' c n)
    have "columnLength (heap w (snd entry)) \<le> maxLength w cs"
      using entry by (rule maxLength_ge)
    then have "cellAt w' t (fst entry) i = columnAt (heap w (snd entry)) i" for i
      by (simp add: cellAt_def t m hb columnAt_setLengthIfArray)
    then show ?thesis
      using m hb by (auto simp add: getColumn_def t b_def)
  qed
  have r5: "cellAt (w'\<lparr>heap := h\<rparr>) t name i = cellAt w' t name i"
    if h: "\<forall>b. nextAddr w \<le> b \<longrightarrow> h b = heap w' b" for h name i
  proof (cases "map_of (columns t) name")
    case None
    then show ?thesis by (simp add: cellAt_def)
  next
    case (Some b)
    then have "b \<in> snd ` set (columns t3)"
      by (force simp add: t dest: map_of_SomeD)
    then have "h b = heap w' b"
      using h fresh by simp
    then show ?thesis
      by (simp add: cellAt_def Some)
  qed
  from r1 r2 r3 r4 r5 show ?thesis
    unfolding w'_def t_def by (intro conjI ballI allI impI) (assumption | rule r4 [unfolded w'_def t_def] | simp)+
qed

theorem newDataTableCore_rowCount_and_copies_witness:
  "optionsColumns \<lparr>optionsId = None, optionsColumns = Some [(''a'', 0), (''b'', 1)]\<rparr>
     = Some [(''a'', 0), (''b'', 1)] \<and>
   distinct (map fst [(''a'', 0::nat), (''b'', 1)]) \<and>
   allocated unevenWorld [(''a'', 0), (''b'', 1)] \<and>
   maxLength unevenWorld [(''a'', 0), (''b'', 1)] = 3 \<and>
   columnLength (heap unevenWorld 1) = 1 \<and>
   rowCount (snd unevenTable) = 3 \<and>
   cellAt (fst unevenTable) (snd unevenTable) ''a'' 2 = CNumber 3 \<and>
   cellAt ((fst unevenTable)\<lparr>heap := (heap (fst unevenTable))(0 := ArrayColumn [CNumber 7])\<rparr>)
     (snd unevenTable) ''a'' 2 = CNumber 3"
proof -
  have cols: "optionsColumns \<lparr>optionsId = None, optionsColumns = Some [(''a'', 0), (''b'', 1)]\<rparr>
     = Some [(''a'', 0), (''b'', 1)]"
    by simp
  have names: "distinct (map fst [(''a'', 0::nat), (''b'', 1)])"
    by simp
  have callers: "allocated unevenWorld [(''a'', 0), (''b'', 1)]"
    by (simp add: unevenWorld_def worldOf_def allocated_def)
  have lengths: "maxLength unevenWorld [(''a'', 0), (''b'', 1)] = 3"
    "columnLength (heap unevenWorld 1) = 1" "nextAddr unevenWorld = 14"
    "columnAt (heap unevenWorld 0) 2 = CNumber 3"
    by (simp_all add: maxLength_Cons unevenWorld_def worldOf_def objectPrototypeNames_def)
  note copies = newDataTableCore_rowCount_and_copies [OF cols names callers,
      folded unevenTable_def]
  note count = copies [THEN conjunct1]
  note stored = copies [THEN conjunct2, THEN conjunct2, THEN conjunct2, THEN conjunct1,
      THEN bspec, of "(''a'', 0)"]
  note kept = copies [THEN conjunct2, THEN conjunct2, THEN conjunct2, THEN conjunct2,
      rule_format, of "(heap (fst unevenTable))(0 := ArrayColumn [CNumber 7])" "''a''" 2]
  from count lengths have "rowCount (snd unevenTable) = 3"
    by simp
  moreover from stored have
    "\<forall>i. cellAt (fst unevenTable) (snd unevenTable) (fst (''a'', 0::nat)) i
       = columnAt (heap unevenWorld (snd (''a'', 0::nat))) i"
    by auto
  then have "cellAt (fst unevenTable) (snd unevenTable) ''a'' 2 = CNumber 3"
    using lengths by simp
  moreover have
    "cellAt ((fst unevenTable)\<lparr>heap := (heap (fst unevenTable))(0 := ArrayColumn [CNumber 7])\<rparr>)
       (snd unevenTable) ''a'' 2
     = cellAt (fst unevenTable) (snd unevenTable) ''a'' 2"
    by (rule kept) (simp add: lengths)
  ultimately show ?thesis
    using cols names callers lengths by simp
qed

section \<open>Writing a row in place\<close>





lemma allocated_append [simp]:
  "allocated w (cols @ cols') = (allocated w cols \<and> allocated w cols')"
  by (simp add: allocated_def)

lemma allocated_heap_update [simp]:
  "allocated (w\<lparr>heap := h\<rparr>) cols = allocated w cols"
  by (simp add: allocated_def)








lemma afterChange_frame [simp]:
  "heap (fst (afterChange name eventDetail s)) = heap (fst s)"
  "nextAddr (fst (afterChange name eventDetail s)) = nextAddr (fst s)"
  "objectPrototype (fst (afterChange name eventDetail s)) = objectPrototype (fst s)"
  "columns (snd (afterChange name eventDetail s)) = columns (snd s)"
  "rowCount (snd (afterChange name eventDetail s)) = rowCount (snd s)"
  by (simp_all add: afterChange_def uniqueKey_def fireEvent_def)

lemma heap_applyRowCount:
  "heap (fst (applyRowCount n s)) a =
     (if a \<in> snd ` set (columns (snd s)) then setLengthIfArray n (heap (fst s) a)
      else heap (fst s) a)"
  by (simp add: applyRowCount_def heap_fold_applyLength)






section \<open>Inserting a row\<close>






lemma arraysOnly_Cons [simp]:
  "arraysOnly w t (entry # row) = (arrayOrNew w t (fst entry) \<and> arraysOnly w t row)"
  by (simp add: arraysOnly_def)







lemma columnOf_afterChange [simp]:
  "columnOf (fst (afterChange name eventDetail s)) (snd (afterChange name eventDetail s)) =
     columnOf (fst s) (snd s)"
  by (simp add: columnOf_def getColumn_def fun_eq_iff)









section \<open>Starting a sync\<close>

lemma arrayIndexOf_letter:
  "s \<noteq> [] \<Longrightarrow> 57 < (of_char (hd s) :: nat) \<Longrightarrow> arrayIndexOf s = None"
  by (cases s) (simp_all add: arrayIndexOf_def)

lemma isRegisteredHandler_same [simp]:
  "isRegisteredHandler (s\<lparr>instances := n\<rparr>) i = isRegisteredHandler s i"
  "isRegisteredHandler (s\<lparr>syncLog := l\<rparr>) i = isRegisteredHandler s i"
  "isRegisteredHandler (s\<lparr>isSyncing := b\<rparr>) i = isRegisteredHandler s i"
  "isRegisteredHandler (s\<lparr>registeredSyncEmitters := es\<rparr>) i = isRegisteredHandler s i"
  by (simp_all add: isRegisteredHandler_def)

lemma isRegisteredEmitter_same [simp]:
  "isRegisteredEmitter (s\<lparr>instances := n\<rparr>) i = isRegisteredEmitter s i"
  "isRegisteredEmitter (s\<lparr>syncLog := l\<rparr>) i = isRegisteredEmitter s i"
  "isRegisteredEmitter (s\<lparr>isSyncing := b\<rparr>) i = isRegisteredEmitter s i"
  "isRegisteredEmitter (s\<lparr>registeredSyncHandlers := hs\<rparr>) i = isRegisteredEmitter s i"
  by (simp_all add: isRegisteredEmitter_def)

lemma isRegisteredHandler_objectSet [simp]:
  "isRegisteredHandler (s\<lparr>registeredSyncHandlers := objectSet k h (registeredSyncHandlers s)\<rparr>) i
     = (i = k \<or> isRegisteredHandler s i)"
  by (simp add: isRegisteredHandler_def objectSet_conv')

lemma isRegisteredEmitter_objectSet [simp]:
  "isRegisteredEmitter (s\<lparr>registeredSyncEmitters := objectSet k e (registeredSyncEmitters s)\<rparr>) i
     = (i = k \<or> isRegisteredEmitter s i)"
  by (simp add: isRegisteredEmitter_def objectSet_conv')

lemmas sync_defs =
  start_def startEntry_def startHandler_def startEmitter_def resolveHandler_def
  resolveEmitter_def constructHandler_def objectSet_def arrayIndexOf_letter
  objectPrototypeNames_def
  constructEmitter_def newSyncHandler_def newSyncEmitter_def createHandler_def
  createEmitter_def registerSyncHandler_def registerSyncEmitter_def
  isRegisteredHandler_def isRegisteredEmitter_def newSync_def countOf_def
  sharedConfig_def sharedDefaults_def


text \<open>
  Claim C5 as stated fails where it says that no second instance is created because the
  guard is checked before creation. With two events that share the handler
  \<^verbatim>\<open>extremesHandler\<close>, \<^verbatim>\<open>start\<close> constructs a second instance of it (number 2) after the
  first (number 0) was registered and created; the second is then dropped.
\<close>

theorem start_constructs_second_instance_counterexample:
  "(case start sharedDefaults (newSync sharedConfig) of
      Inl e \<Rightarrow> False
    | Inr s \<Rightarrow>
        syncLog s =
          [NewHandler 0 ''extremesHandler'', CreateHandler 0 ''extremesHandler'',
           NewEmitter 1 ''selectionEmitter'', CreateEmitter 1 ''selectionEmitter'',
           NewHandler 2 ''extremesHandler'',
           NewEmitter 3 ''panningEmitter'', CreateEmitter 3 ''panningEmitter''] \<and>
        countOf (isNewHandler ''extremesHandler'') s = 2 \<and>
        countOf (isCreateHandler ''extremesHandler'') s = 1 \<and>
        map fst (registeredSyncHandlers s) = [''extremesHandler''])"
  by (simp add: sync_defs)

lemma handlerGuarded_refl: "handlerGuarded i s s"
  by (simp add: handlerGuarded_def)

lemma emitterGuarded_refl: "emitterGuarded i s s"
  by (simp add: emitterGuarded_def)

lemma handlerGuarded_trans:
  assumes a: "handlerGuarded i s s1" and b: "handlerGuarded i s1 s2"
  shows "handlerGuarded i s s2"
proof (cases "isRegisteredHandler s i")
  case True
  with a have 1: "map_of (registeredSyncHandlers s1) i = map_of (registeredSyncHandlers s) i"
    by (simp add: handlerGuarded_def)
  with True have r1: "isRegisteredHandler s1 i"
    by (simp add: isRegisteredHandler_def)
  with b have 2: "map_of (registeredSyncHandlers s2) i = map_of (registeredSyncHandlers s1) i"
    by (simp add: handlerGuarded_def)
  with r1 have r2: "isRegisteredHandler s2 i"
    by (simp add: isRegisteredHandler_def)
  from a b True r1 r2 1 2 show ?thesis
    by (simp add: handlerGuarded_def)
next
  case False
  show ?thesis
  proof (cases "isRegisteredHandler s1 i")
    case True
    with b have 2: "map_of (registeredSyncHandlers s2) i = map_of (registeredSyncHandlers s1) i"
      by (simp add: handlerGuarded_def)
    with True have r2: "isRegisteredHandler s2 i"
      by (simp add: isRegisteredHandler_def)
    from a b False True r2 show ?thesis
      by (simp add: handlerGuarded_def)
  next
    case False' : False
    from a b False False' show ?thesis
      by (simp add: handlerGuarded_def)
  qed
qed

lemma emitterGuarded_trans:
  assumes a: "emitterGuarded i s s1" and b: "emitterGuarded i s1 s2"
  shows "emitterGuarded i s s2"
proof (cases "isRegisteredEmitter s i")
  case True
  with a have 1: "map_of (registeredSyncEmitters s1) i = map_of (registeredSyncEmitters s) i"
    by (simp add: emitterGuarded_def)
  with True have r1: "isRegisteredEmitter s1 i"
    by (simp add: isRegisteredEmitter_def)
  with b have 2: "map_of (registeredSyncEmitters s2) i = map_of (registeredSyncEmitters s1) i"
    by (simp add: emitterGuarded_def)
  with r1 have r2: "isRegisteredEmitter s2 i"
    by (simp add: isRegisteredEmitter_def)
  from a b True r1 r2 1 2 show ?thesis
    by (simp add: emitterGuarded_def)
next
  case False
  show ?thesis
  proof (cases "isRegisteredEmitter s1 i")
    case True
    with b have 2: "map_of (registeredSyncEmitters s2) i = map_of (registeredSyncEmitters s1) i"
      by (simp add: emitterGuarded_def)
    with True have r2: "isRegisteredEmitter s2 i"
      by (simp add: isRegisteredEmitter_def)
    from a b False True r2 show ?thesis
      by (simp add: emitterGuarded_def)
  next
    case False' : False
    from a b False False' show ?thesis
      by (simp add: emitterGuarded_def)
  qed
qed

lemma constructHandler_registered:
  "isRegisteredHandler s (fst c) \<Longrightarrow>
   constructHandler c s =
     s\<lparr>instances := Suc (instances s),
       syncLog := syncLog s @ [NewHandler (instances s) (fst c)]\<rparr>"
  by (simp add: constructHandler_def newSyncHandler_def)

lemma constructHandler_fresh:
  "\<not> isRegisteredHandler s (fst c) \<Longrightarrow>
   constructHandler c s =
     s\<lparr>registeredSyncHandlers :=
         objectSet (fst c)
           \<lparr>handlerSerial = instances s, handlerId = fst c,
             presentationStateTrigger = fst (snd c), handlerFunc = snd (snd c)\<rparr>
           (registeredSyncHandlers s),
       instances := Suc (instances s),
       syncLog := syncLog s
         @ [NewHandler (instances s) (fst c), CreateHandler (instances s) (fst c)]\<rparr>"
  by (simp add: constructHandler_def newSyncHandler_def createHandler_def
      registerSyncHandler_def)

lemma constructHandler_handlerGuarded: "handlerGuarded i s (constructHandler c s)"
proof (cases "isRegisteredHandler s (fst c)")
  case True
  then show ?thesis
    by (simp add: constructHandler_registered handlerGuarded_def countOf_def)
next
  case False
  then show ?thesis
    by (auto simp add: constructHandler_fresh handlerGuarded_def countOf_def objectSet_conv')
qed

lemma constructHandler_emitterGuarded: "emitterGuarded j s (constructHandler c s)"
  by (cases "isRegisteredHandler s (fst c)")
    (simp_all add: constructHandler_registered constructHandler_fresh emitterGuarded_def
      countOf_def)

lemma constructHandler_distinct:
  "distinct (map fst (registeredSyncHandlers s)) \<Longrightarrow>
   distinct (map fst (registeredSyncHandlers (constructHandler c s)))"
  by (cases "isRegisteredHandler s (fst c)")
    (simp_all add: constructHandler_registered constructHandler_fresh distinct_objectSet)

lemma constructHandler_frame [simp]:
  "registeredSyncEmitters (constructHandler c s) = registeredSyncEmitters s"
  "syncConfig (constructHandler c s) = syncConfig s"
  by (cases "isRegisteredHandler s (fst c)";
      simp add: constructHandler_registered constructHandler_fresh)+

lemma constructHandler_constructed:
  "countOf (isNewHandler i) (constructHandler c s) =
     countOf (isNewHandler i) s + (if fst c = i then 1 else 0)"
  "countOf (isNewEmitter i) (constructHandler c s) = countOf (isNewEmitter i) s"
  by (cases "isRegisteredHandler s (fst c)";
      simp add: constructHandler_registered constructHandler_fresh countOf_def)+

lemma constructEmitter_registered:
  "isRegisteredEmitter s (fst c) \<Longrightarrow>
   constructEmitter c s =
     s\<lparr>instances := Suc (instances s),
       syncLog := syncLog s @ [NewEmitter (instances s) (fst c)]\<rparr>"
  by (simp add: constructEmitter_def newSyncEmitter_def)

lemma constructEmitter_fresh:
  "\<not> isRegisteredEmitter s (fst c) \<Longrightarrow>
   constructEmitter c s =
     s\<lparr>registeredSyncEmitters :=
         objectSet (fst c)
           \<lparr>emitterSerial = instances s, emitterId = fst c, emitterFunc = snd c\<rparr>
           (registeredSyncEmitters s),
       instances := Suc (instances s),
       syncLog := syncLog s
         @ [NewEmitter (instances s) (fst c), CreateEmitter (instances s) (fst c)]\<rparr>"
  by (simp add: constructEmitter_def newSyncEmitter_def createEmitter_def
      registerSyncEmitter_def)

lemma constructEmitter_emitterGuarded: "emitterGuarded i s (constructEmitter c s)"
proof (cases "isRegisteredEmitter s (fst c)")
  case True
  then show ?thesis
    by (simp add: constructEmitter_registered emitterGuarded_def countOf_def)
next
  case False
  then show ?thesis
    by (auto simp add: constructEmitter_fresh emitterGuarded_def countOf_def objectSet_conv')
qed

lemma constructEmitter_handlerGuarded: "handlerGuarded j s (constructEmitter c s)"
  by (cases "isRegisteredEmitter s (fst c)")
    (simp_all add: constructEmitter_registered constructEmitter_fresh handlerGuarded_def
      countOf_def)

lemma constructEmitter_distinct:
  "distinct (map fst (registeredSyncEmitters s)) \<Longrightarrow>
   distinct (map fst (registeredSyncEmitters (constructEmitter c s)))"
  by (cases "isRegisteredEmitter s (fst c)")
    (simp_all add: constructEmitter_registered constructEmitter_fresh distinct_objectSet)

lemma constructEmitter_frame [simp]:
  "registeredSyncHandlers (constructEmitter c s) = registeredSyncHandlers s"
  "syncConfig (constructEmitter c s) = syncConfig s"
  by (cases "isRegisteredEmitter s (fst c)";
      simp add: constructEmitter_registered constructEmitter_fresh)+

lemma constructEmitter_constructed:
  "countOf (isNewEmitter i) (constructEmitter c s) =
     countOf (isNewEmitter i) s + (if fst c = i then 1 else 0)"
  "countOf (isNewHandler i) (constructEmitter c s) = countOf (isNewHandler i) s"
  by (cases "isRegisteredEmitter s (fst c)";
      simp add: constructEmitter_registered constructEmitter_fresh countOf_def)+


lemma guardedStep_refl: "guardedStep s s"
  by (simp add: guardedStep_def handlerGuarded_refl emitterGuarded_refl)

lemma guardedStep_trans:
  assumes "guardedStep s s1" and "guardedStep s1 s2"
  shows "guardedStep s s2"
  unfolding guardedStep_def
proof (intro conjI allI impI)
  fix i
  show "handlerGuarded i s s2"
    using assms by (intro handlerGuarded_trans [of i s s1 s2]) (simp_all add: guardedStep_def)
  show "emitterGuarded i s s2"
    using assms by (intro emitterGuarded_trans [of i s s1 s2]) (simp_all add: guardedStep_def)
next
  assume "distinct (map fst (registeredSyncHandlers s))"
  with assms show "distinct (map fst (registeredSyncHandlers s2))"
    by (simp add: guardedStep_def)
next
  assume "distinct (map fst (registeredSyncEmitters s))"
  with assms show "distinct (map fst (registeredSyncEmitters s2))"
    by (simp add: guardedStep_def)
next
  from assms show "syncConfig s2 = syncConfig s"
    by (simp add: guardedStep_def)
qed

lemma constructHandler_guardedStep: "guardedStep s (constructHandler c s)"
  by (simp add: guardedStep_def constructHandler_handlerGuarded constructHandler_emitterGuarded
      constructHandler_distinct)

lemma constructEmitter_guardedStep: "guardedStep s (constructEmitter c s)"
  by (simp add: guardedStep_def constructEmitter_handlerGuarded constructEmitter_emitterGuarded
      constructEmitter_distinct)

lemma startHandler_cases:
  "startHandler defaultHandlers i handlerConfig s = Inr s' \<Longrightarrow>
   s' = s \<or> (\<exists>c. s' = constructHandler c s)"
  by (auto simp add: startHandler_def split: sum.splits option.splits)

lemma startEmitter_cases:
  "startEmitter defaultHandlers i emitterConfig s = Inr s' \<Longrightarrow>
   s' = s \<or> (\<exists>c. s' = constructEmitter c s)"
  by (auto simp add: startEmitter_def split: sum.splits option.splits)

lemma startHandler_guardedStep:
  "startHandler defaultHandlers i handlerConfig s = Inr s' \<Longrightarrow> guardedStep s s'"
  by (auto dest!: startHandler_cases intro: guardedStep_refl constructHandler_guardedStep)

lemma startEmitter_guardedStep:
  "startEmitter defaultHandlers i emitterConfig s = Inr s' \<Longrightarrow> guardedStep s s'"
  by (auto dest!: startEmitter_cases intro: guardedStep_refl constructEmitter_guardedStep)

lemma startEntry_guardedStep:
  assumes "startEntry defaultHandlers entry s = Inr s'"
  shows "guardedStep s s'"
proof (cases "startHandler defaultHandlers (fst entry) (handler (snd entry)) s")
  case (Inl e)
  with assms show ?thesis by (simp add: startEntry_def)
next
  case (Inr s1)
  with assms have "startEmitter defaultHandlers (fst entry) (emitter (snd entry)) s1 = Inr s'"
    by (simp add: startEntry_def)
  then have "guardedStep s1 s'"
    by (rule startEmitter_guardedStep)
  moreover from Inr have "guardedStep s s1"
    by (rule startHandler_guardedStep)
  ultimately show ?thesis
    by (rule guardedStep_trans [rotated])
qed

lemma startEntries_guardedStep:
  "startEntries defaultHandlers entries s = Inr s' \<Longrightarrow> guardedStep s s'"
proof (induction entries arbitrary: s)
  case Nil
  then show ?case by (simp add: guardedStep_refl)
next
  case (Cons entry entries)
  show ?case
  proof (cases "startEntry defaultHandlers entry s")
    case (Inl e)
    with Cons.prems show ?thesis by simp
  next
    case (Inr s1)
    with Cons.prems have "startEntries defaultHandlers entries s1 = Inr s'"
      by simp
    then have "guardedStep s1 s'"
      by (rule Cons.IH)
    moreover from Inr have "guardedStep s s1"
      by (rule startEntry_guardedStep)
    ultimately show ?thesis
      by (rule guardedStep_trans [rotated])
  qed
qed

lemma isSyncing_guardedStep: "guardedStep s (s\<lparr>isSyncing := b\<rparr>)"
  by (simp add: guardedStep_def handlerGuarded_def emitterGuarded_def countOf_def)

lemma start_guardedStep:
  assumes "start defaultHandlers s = Inr s'"
  shows "guardedStep s s'"
proof (cases "startEntries defaultHandlers (syncConfig s) s")
  case (Inl e)
  with assms show ?thesis by (simp add: start_def)
next
  case (Inr s1)
  with assms have "s' = s1\<lparr>isSyncing := True\<rparr>"
    by (auto simp add: start_def)
  then have "guardedStep s1 s'"
    by (simp add: isSyncing_guardedStep)
  moreover from Inr have "guardedStep s s1"
    by (rule startEntries_guardedStep)
  ultimately show ?thesis
    by (rule guardedStep_trans [rotated])
qed

lemma startHandler_constructed:
  assumes "startHandler defaultHandlers i handlerConfig s = Inr s'"
  shows "countOf (isNewHandler j) s' =
      countOf (isNewHandler j) s
        + length (filter (\<lambda>c. fst c = j)
            (case resolveHandler defaultHandlers i handlerConfig of
               Inl e \<Rightarrow> [] | Inr None \<Rightarrow> [] | Inr (Some c) \<Rightarrow> [c]))"
    and "countOf (isNewEmitter j) s' = countOf (isNewEmitter j) s"
  using assms
  by (auto simp add: startHandler_def constructHandler_constructed
      split: sum.splits option.splits)

lemma startEmitter_constructed:
  assumes "startEmitter defaultHandlers i emitterConfig s = Inr s'"
  shows "countOf (isNewEmitter j) s' =
      countOf (isNewEmitter j) s
        + length (filter (\<lambda>c. fst c = j)
            (case resolveEmitter defaultHandlers i emitterConfig of
               Inl e \<Rightarrow> [] | Inr None \<Rightarrow> [] | Inr (Some c) \<Rightarrow> [c]))"
    and "countOf (isNewHandler j) s' = countOf (isNewHandler j) s"
  using assms
  by (auto simp add: startEmitter_def constructEmitter_constructed
      split: sum.splits option.splits)

lemma startEntry_constructed:
  assumes "startEntry defaultHandlers entry s = Inr s'"
  shows "countOf (isNewHandler j) s' =
      countOf (isNewHandler j) s
        + length (filter (\<lambda>c. fst c = j) (constructedHandlers defaultHandlers [entry]))"
    and "countOf (isNewEmitter j) s' =
      countOf (isNewEmitter j) s
        + length (filter (\<lambda>c. fst c = j) (constructedEmitters defaultHandlers [entry]))"
proof -
  from assms obtain s1 where
    h: "startHandler defaultHandlers (fst entry) (handler (snd entry)) s = Inr s1"
    and e: "startEmitter defaultHandlers (fst entry) (emitter (snd entry)) s1 = Inr s'"
    by (cases "startHandler defaultHandlers (fst entry) (handler (snd entry)) s")
      (simp_all add: startEntry_def)
  show "countOf (isNewHandler j) s' =
      countOf (isNewHandler j) s
        + length (filter (\<lambda>c. fst c = j) (constructedHandlers defaultHandlers [entry]))"
    using startHandler_constructed(1) [OF h, of j] startEmitter_constructed(2) [OF e, of j]
    by (simp add: constructedHandlers_def)
  show "countOf (isNewEmitter j) s' =
      countOf (isNewEmitter j) s
        + length (filter (\<lambda>c. fst c = j) (constructedEmitters defaultHandlers [entry]))"
    using startHandler_constructed(2) [OF h, of j] startEmitter_constructed(1) [OF e, of j]
    by (simp add: constructedEmitters_def)
qed

lemma constructed_Cons:
  "constructedHandlers defaultHandlers (entry # entries) =
     constructedHandlers defaultHandlers [entry] @ constructedHandlers defaultHandlers entries"
  "constructedEmitters defaultHandlers (entry # entries) =
     constructedEmitters defaultHandlers [entry] @ constructedEmitters defaultHandlers entries"
  by (simp_all add: constructedHandlers_def constructedEmitters_def)

lemma startEntries_constructed:
  "startEntries defaultHandlers entries s = Inr s' \<Longrightarrow>
   countOf (isNewHandler j) s' =
     countOf (isNewHandler j) s
       + length (filter (\<lambda>c. fst c = j) (constructedHandlers defaultHandlers entries)) \<and>
   countOf (isNewEmitter j) s' =
     countOf (isNewEmitter j) s
       + length (filter (\<lambda>c. fst c = j) (constructedEmitters defaultHandlers entries))"
proof (induction entries arbitrary: s)
  case Nil
  then show ?case
    by (simp add: constructedHandlers_def constructedEmitters_def)
next
  case (Cons entry entries)
  from Cons.prems obtain s1 where
    first: "startEntry defaultHandlers entry s = Inr s1"
    and rest: "startEntries defaultHandlers entries s1 = Inr s'"
    by (cases "startEntry defaultHandlers entry s") simp_all
  from Cons.IH [OF rest] startEntry_constructed [OF first, of j] show ?case
    by (simp add: constructed_Cons [of defaultHandlers entry entries])
qed

lemma start_constructed:
  assumes "start defaultHandlers s = Inr s'"
  shows "countOf (isNewHandler j) s' =
     countOf (isNewHandler j) s
       + length (filter (\<lambda>c. fst c = j) (constructedHandlers defaultHandlers (syncConfig s)))"
    and "countOf (isNewEmitter j) s' =
     countOf (isNewEmitter j) s
       + length (filter (\<lambda>c. fst c = j) (constructedEmitters defaultHandlers (syncConfig s)))"
proof -
  from assms obtain s1 where
    run: "startEntries defaultHandlers (syncConfig s) s = Inr s1"
    and s': "s' = s1\<lparr>isSyncing := True\<rparr>"
    by (cases "startEntries defaultHandlers (syncConfig s) s") (auto simp add: start_def)
  from startEntries_constructed [OF run, of j] show
    "countOf (isNewHandler j) s' =
     countOf (isNewHandler j) s
       + length (filter (\<lambda>c. fst c = j) (constructedHandlers defaultHandlers (syncConfig s)))"
    "countOf (isNewEmitter j) s' =
     countOf (isNewEmitter j) s
       + length (filter (\<lambda>c. fst c = j) (constructedEmitters defaultHandlers (syncConfig s)))"
    by (simp_all add: s' countOf_def)
qed

text \<open>
  Claim C5, amended. When \<^verbatim>\<open>start\<close> returns, then for every identifier: a handler that
  was registered before is still the registered instance and its hook \<^verbatim>\<open>create\<close> was not
  called again; a handler that was not registered had \<^verbatim>\<open>create\<close> called exactly once if
  it is registered now and not at all otherwise; the registry holds one entry for each
  identifier; and the same for emitters. The guard is checked after the instance is
  constructed and before it is registered and created: \<^verbatim>\<open>start\<close> has constructed one
  handler for every enabled handler configuration with that identifier, and one emitter
  for every enabled emitter configuration with it, registered or not.
\<close>

theorem start_registers_and_creates_once:
  assumes "start defaultHandlers s = Inr s'"
  shows
    "countOf (isCreateHandler i) s' =
       countOf (isCreateHandler i) s
         + (if isRegisteredHandler s' i \<and> \<not> isRegisteredHandler s i then 1 else 0) \<and>
     (isRegisteredHandler s i \<longrightarrow>
        map_of (registeredSyncHandlers s') i = map_of (registeredSyncHandlers s) i) \<and>
     (distinct (map fst (registeredSyncHandlers s)) \<longrightarrow>
        distinct (map fst (registeredSyncHandlers s'))) \<and>
     countOf (isCreateEmitter i) s' =
       countOf (isCreateEmitter i) s
         + (if isRegisteredEmitter s' i \<and> \<not> isRegisteredEmitter s i then 1 else 0) \<and>
     (isRegisteredEmitter s i \<longrightarrow>
        map_of (registeredSyncEmitters s') i = map_of (registeredSyncEmitters s) i) \<and>
     (distinct (map fst (registeredSyncEmitters s)) \<longrightarrow>
        distinct (map fst (registeredSyncEmitters s'))) \<and>
     countOf (isNewHandler i) s' =
       countOf (isNewHandler i) s
         + length (filter (\<lambda>c. fst c = i)
             (constructedHandlers defaultHandlers (syncConfig s))) \<and>
     countOf (isNewEmitter i) s' =
       countOf (isNewEmitter i) s
         + length (filter (\<lambda>c. fst c = i)
             (constructedEmitters defaultHandlers (syncConfig s)))"
proof -
  from assms have step: "guardedStep s s'"
    by (rule start_guardedStep)
  then have "handlerGuarded i s s'" and "emitterGuarded i s s'"
    by (simp_all add: guardedStep_def)
  with step have guarded:
    "countOf (isCreateHandler i) s' =
       countOf (isCreateHandler i) s
         + (if isRegisteredHandler s' i \<and> \<not> isRegisteredHandler s i then 1 else 0) \<and>
     (isRegisteredHandler s i \<longrightarrow>
        map_of (registeredSyncHandlers s') i = map_of (registeredSyncHandlers s) i) \<and>
     (distinct (map fst (registeredSyncHandlers s)) \<longrightarrow>
        distinct (map fst (registeredSyncHandlers s'))) \<and>
     countOf (isCreateEmitter i) s' =
       countOf (isCreateEmitter i) s
         + (if isRegisteredEmitter s' i \<and> \<not> isRegisteredEmitter s i then 1 else 0) \<and>
     (isRegisteredEmitter s i \<longrightarrow>
        map_of (registeredSyncEmitters s') i = map_of (registeredSyncEmitters s) i) \<and>
     (distinct (map fst (registeredSyncEmitters s)) \<longrightarrow>
        distinct (map fst (registeredSyncEmitters s')))"
    by (simp add: guardedStep_def handlerGuarded_def emitterGuarded_def)
  from guarded start_constructed [OF assms, of i] show ?thesis
    by (elim conjE) (intro conjI; assumption)
qed

theorem start_registers_and_creates_once_witness:
  "start sharedDefaults (newSync sharedConfig) = Inr sharedStarted \<and>
   \<not> isRegisteredHandler (newSync sharedConfig) ''extremesHandler'' \<and>
   isRegisteredHandler sharedStarted ''extremesHandler'' \<and>
   countOf (isCreateHandler ''extremesHandler'') sharedStarted = 1 \<and>
   countOf (isNewHandler ''extremesHandler'') sharedStarted = 2 \<and>
   start sharedDefaults sharedStarted = Inr sharedRestarted \<and>
   countOf (isCreateHandler ''extremesHandler'') sharedRestarted = 1 \<and>
   countOf (isNewHandler ''extremesHandler'') sharedRestarted = 4 \<and>
   countOf (isCreateEmitter ''panningEmitter'') sharedRestarted = 1 \<and>
   countOf (isNewEmitter ''panningEmitter'') sharedRestarted = 2 \<and>
   map_of (registeredSyncHandlers sharedRestarted) ''extremesHandler''
     = map_of (registeredSyncHandlers sharedStarted) ''extremesHandler'' \<and>
   distinct (map fst (registeredSyncHandlers sharedRestarted))"
proof -
  have started: "sharedStarted =
      \<lparr>registeredSyncHandlers =
         [(''extremesHandler'',
           \<lparr>handlerSerial = 0, handlerId = ''extremesHandler'',
             presentationStateTrigger = ''afterSetExtremes'', handlerFunc = 1\<rparr>)],
       registeredSyncEmitters =
         [(''selectionEmitter'',
           \<lparr>emitterSerial = 1, emitterId = ''selectionEmitter'', emitterFunc = 0\<rparr>),
          (''panningEmitter'',
           \<lparr>emitterSerial = 3, emitterId = ''panningEmitter'', emitterFunc = 2\<rparr>)],
       syncConfig = sharedConfig, isSyncing = True, instances = 4,
       syncLog =
         [NewHandler 0 ''extremesHandler'', CreateHandler 0 ''extremesHandler'',
          NewEmitter 1 ''selectionEmitter'', CreateEmitter 1 ''selectionEmitter'',
          NewHandler 2 ''extremesHandler'',
          NewEmitter 3 ''panningEmitter'', CreateEmitter 3 ''panningEmitter'']\<rparr>"
    by (simp add: sharedStarted_def sync_defs)
  have first: "start sharedDefaults (newSync sharedConfig) = Inr sharedStarted"
    by (simp add: sharedStarted_def sync_defs)
  have new: "\<not> isRegisteredHandler (newSync sharedConfig) ''extremesHandler''"
    "countOf (isCreateHandler ''extremesHandler'') (newSync sharedConfig) = 0"
    by (simp_all add: newSync_def isRegisteredHandler_def countOf_def
        objectPrototypeNames_def)
  have once: "isRegisteredHandler sharedStarted ''extremesHandler''"
    "isRegisteredEmitter sharedStarted ''panningEmitter''"
    "countOf (isCreateEmitter ''panningEmitter'') sharedStarted = 1"
    "countOf (isNewHandler ''extremesHandler'') sharedStarted = 2"
    "countOf (isNewEmitter ''panningEmitter'') sharedStarted = 1"
    "distinct (map fst (registeredSyncHandlers sharedStarted))"
    by (simp_all add: started isRegisteredHandler_def isRegisteredEmitter_def countOf_def)
  have second: "start sharedDefaults sharedStarted = Inr sharedRestarted"
    unfolding sharedRestarted_def started
    by (simp add: start_def startEntry_def startHandler_def startEmitter_def
        resolveHandler_def resolveEmitter_def
        constructHandler_def constructEmitter_def newSyncHandler_def newSyncEmitter_def
        isRegisteredHandler_def isRegisteredEmitter_def sharedConfig_def sharedDefaults_def)
  have enabled:
    "length (filter (\<lambda>c. fst c = ''extremesHandler'')
       (constructedHandlers sharedDefaults (syncConfig sharedStarted))) = 2"
    "length (filter (\<lambda>c. fst c = ''panningEmitter'')
       (constructedEmitters sharedDefaults (syncConfig sharedStarted))) = 1"
    by (simp_all add: started constructedHandlers_def constructedEmitters_def
        resolveHandler_def resolveEmitter_def sharedConfig_def sharedDefaults_def)
  note one = start_registers_and_creates_once [OF first, of "''extremesHandler''"]
  note two = start_registers_and_creates_once [OF second, of "''extremesHandler''"]
  note three = start_registers_and_creates_once [OF second, of "''panningEmitter''"]
  from one new once have c1: "countOf (isCreateHandler ''extremesHandler'') sharedStarted = 1"
    by simp
  from two once c1 enabled have
    c2: "countOf (isCreateHandler ''extremesHandler'') sharedRestarted = 1"
    and kept: "map_of (registeredSyncHandlers sharedRestarted) ''extremesHandler''
      = map_of (registeredSyncHandlers sharedStarted) ''extremesHandler''"
    and single: "distinct (map fst (registeredSyncHandlers sharedRestarted))"
    and n2: "countOf (isNewHandler ''extremesHandler'') sharedRestarted = 4"
    by simp_all
  from three once enabled have
    c3: "countOf (isCreateEmitter ''panningEmitter'') sharedRestarted = 1"
    and n3: "countOf (isNewEmitter ''panningEmitter'') sharedRestarted = 2"
    by simp_all
  from first new once second c1 c2 c3 n2 n3 kept single show ?thesis
    by simp
qed

section \<open>The row count and the lengths of the columns\<close>

lemma setColumnsColumn_step:
  "setColumnsColumn (name, a) (w, t, n) =
     (w\<lparr>heap := (heap w)(nextAddr w := heap w a), nextAddr := Suc (nextAddr w)\<rparr>,
      t\<lparr>columns := objectSet name (nextAddr w) (columns t)\<rparr>,
      columnLength (heap w a))"
  by (simp add: setColumnsColumn_def slice_def alloc_def storeColumn_def)

lemma fold_setColumnsColumn_count:
  "allocated w cols \<Longrightarrow>
   snd (snd (fold setColumnsColumn cols (w, t, n))) =
     (if cols = [] then n else columnLength (heap w (snd (last cols))))"
proof (induction cols arbitrary: w t n)
  case Nil
  then show ?case by simp
next
  case (Cons e cols)
  obtain name a where e: "e = (name, a)" by (cases e)
  define w1 where "w1 = w\<lparr>heap := (heap w)(nextAddr w := heap w a), nextAddr := Suc (nextAddr w)\<rparr>"
  from Cons.prems have al: "allocated w1 cols"
    by (auto simp add: w1_def intro: allocated_mono)
  have same: "heap w1 (snd (last cols)) = heap w (snd (last cols))" if "cols \<noteq> []"
  proof -
    from that have "last cols \<in> set cols" by simp
    with Cons.prems have "snd (last cols) < nextAddr w"
      by (auto dest: allocated_member)
    then show ?thesis by (simp add: w1_def)
  qed
  show ?case
    using Cons.IH [OF al] same by (simp add: e setColumnsColumn_step w1_def)
qed

text \<open>
  What \<^verbatim>\<open>setColumns\<close> does to the row count: with a non-empty collection (of arrays that
  exist) it is the length of the column enumerated last.
\<close>

lemma setColumns_rowCount_last:
  "allocated (fst s) cols \<Longrightarrow> cols \<noteq> [] \<Longrightarrow>
   rowCount (snd (setColumns cols rowIndex eventDetail s)) =
     columnLength (heap (fst s) (snd (last cols)))"
  using fold_setColumnsColumn_count [of "fst s" cols "snd s" "rowCount (snd s)"]
  by (simp add: setColumns_unfold)

lemma hasRowCount_setLengthIfArray [simp]: "hasRowCount n (setLengthIfArray n c)"
  by (cases c) (simp_all add: hasRowCount_def arraySetLength_def)

text \<open>
  \<^verbatim>\<open>applyRowCount\<close> gives every array-backed column of the table the length \<open>rowCount\<close>,
  and so do the constructor, \<^verbatim>\<open>setColumns\<close> and \<^verbatim>\<open>setColumn\<close>, which end with it.
\<close>

lemma applyRowCount_lengthsOk:
  "lengthsOk (fst (applyRowCount n s)) (snd (applyRowCount n s))"
  by (simp add: lengthsOk_def list_all_iff heap_applyRowCount)

lemma afterChange_lengthsOk:
  "lengthsOk (fst s) (snd s) \<Longrightarrow>
   lengthsOk (fst (afterChange name eventDetail s)) (snd (afterChange name eventDetail s))"
  by (simp add: lengthsOk_def)

lemma setColumns_lengthsOk:
  "lengthsOk (fst (setColumns cols rowIndex eventDetail s))
     (snd (setColumns cols rowIndex eventDetail s))"
  unfolding setColumns_unfold by (intro afterChange_lengthsOk applyRowCount_lengthsOk)

lemma setColumn_lengthsOk:
  "lengthsOk (fst (setColumn columnName column rowIndex eventDetail s))
     (snd (setColumn columnName column rowIndex eventDetail s))"
  by (simp add: setColumn_def setColumns_lengthsOk split: prod.splits option.splits)

lemma newDataTableCore_lengthsOk:
  "lengthsOk (fst (newDataTableCore options w)) (snd (newDataTableCore options w))"
  by (simp add: newDataTableCore_def Let_def applyRowCount_lengthsOk split: prod.splits)

end
